theory Spec2Isabelle
  imports Complex_Main "HOL-Library.Word" "HOL-Library.AList"
begin

unbundle bit_operations_syntax

section \<open>Data model\<close>

text \<open>
  The program is \<^verbatim>\<open>src/ocr2table.py\<close>. Python \<^verbatim>\<open>bytes\<close> are lists of 8-bit words;
  Python \<^verbatim>\<open>str\<close> values are \<^typ>\<open>string\<close>s, read as the UTF-8 bytes of the text. The
  only characters the program searches for are \<^verbatim>\<open>.\<close> and \<^verbatim>\<open>/\<close>, which never occur inside
  a multi-byte sequence, so every test on positions made below has the same outcome on
  bytes as on code points.
\<close>

type_synonym byte = "8 word"
type_synonym bytes = "byte list"

text \<open>
  Exceptions are values. \<^verbatim>\<open>TencentCloudSDKException\<close> is the provider's exception class
  (import at line 32); the \<^verbatim>\<open>OSError\<close> subclasses are raised by the file operations,
  \<^verbatim>\<open>ValueError\<close> by \<^verbatim>\<open>Path.with_suffix\<close>; \<open>OtherException\<close> stands for every other
  class (for instance \<^verbatim>\<open>binascii.Error\<close> from \<^verbatim>\<open>base64.b64decode\<close>).
\<close>

datatype exn =
    TencentCloudSDKException string
  | FileNotFoundError
  | NotADirectoryError
  | IsADirectoryError
  | FileExistsError
  | ValueError
  | OtherException string

subsection \<open>pathlib: pure POSIX paths\<close>

text \<open>
  A \<^verbatim>\<open>pathlib.PurePosixPath\<close> is its root (\<^verbatim>\<open>''\<close>, \<^verbatim>\<open>'/'\<close> or \<^verbatim>\<open>'//'\<close>) and the list of
  its components. The definitions follow CPython's \<^verbatim>\<open>pathlib.py\<close> (3.9 to 3.13, the
  versions that accept the annotation \<^verbatim>\<open>list[Path]\<close> and the walrus operator of the
  program).
\<close>

record path =
  p_root :: string
  p_parts :: "string list"

text \<open>\<^verbatim>\<open>str.split('/')\<close>: the pieces between the separators, empty pieces included.\<close>

fun split_sep :: "string \<Rightarrow> string list" where
  "split_sep [] = [[]]"
| "split_sep (c # cs) =
     (if c = CHR ''/'' then [] # split_sep cs
      else (case split_sep cs of [] \<Rightarrow> [[c]] | w # ws \<Rightarrow> (c # w) # ws))"

text \<open>
  \<^verbatim>\<open>_PosixFlavour.splitroot\<close>: exactly two leading slashes are kept as the root
  \<^verbatim>\<open>'//'\<close>, any other number of leading slashes is the root \<^verbatim>\<open>'/'\<close>.
\<close>

definition splitroot :: "string \<Rightarrow> string \<times> string" where
  "splitroot part =
     (if part \<noteq> [] \<and> hd part = CHR ''/'' then
        (let stripped_part = dropWhile (\<lambda>c. c = CHR ''/'') part in
         if length part - length stripped_part = 2 then (''//'', stripped_part)
         else (''/'', stripped_part))
      else ('''', part))"

text \<open>
  \<^verbatim>\<open>Path(s)\<close> for one string (\<^verbatim>\<open>parse_parts\<close>): empty components and \<^verbatim>\<open>'.'\<close> are
  dropped, \<^verbatim>\<open>'..'\<close> is kept.
\<close>

definition Path :: "string \<Rightarrow> path" where
  "Path s =
     (let (rt, rel) = splitroot s in
      \<lparr>p_root = rt, p_parts = filter (\<lambda>x. x \<noteq> [] \<and> x \<noteq> ''.'') (split_sep rel)\<rparr>)"

text \<open>
  \<^verbatim>\<open>path / key\<close> for a string \<open>key\<close> (\<^verbatim>\<open>_make_child\<close>, \<^verbatim>\<open>join_parsed_parts\<close>): an
  absolute key replaces the path, a relative one is appended.
\<close>

definition truediv :: "path \<Rightarrow> string \<Rightarrow> path" where
  "truediv p key =
     (let k = Path key in
      if p_root k \<noteq> [] then k
      else \<lparr>p_root = p_root p, p_parts = p_parts p @ p_parts k\<rparr>)"

text \<open>\<^verbatim>\<open>PurePath.name\<close>: the last component, or the empty string when there is none.\<close>

definition path_name :: "path \<Rightarrow> string" where
  "path_name p = (if p_parts p = [] then [] else last (p_parts p))"

text \<open>\<^verbatim>\<open>str.rfind(c)\<close>: the highest index holding \<open>c\<close>, or \<open>-1\<close>.\<close>

fun rfind :: "string \<Rightarrow> char \<Rightarrow> int" where
  "rfind [] c = - 1"
| "rfind (x # xs) c =
     (let r = rfind xs c in
      if 0 \<le> r then r + 1 else if x = c then 0 else - 1)"

text \<open>
  \<^verbatim>\<open>PurePath.suffix\<close> and \<^verbatim>\<open>PurePath.stem\<close>: with \<^verbatim>\<open>i = name.rfind('.')\<close>, the name is
  cut at \<open>i\<close> when \<^verbatim>\<open>0 < i < len(name) - 1\<close>; otherwise the suffix is empty and the stem
  is the whole name.
\<close>

definition path_suffix :: "path \<Rightarrow> string" where
  "path_suffix p =
     (let name = path_name p; i = rfind name CHR ''.'' in
      if 0 < i \<and> i < int (length name) - 1 then drop (nat i) name else [])"

definition path_stem :: "path \<Rightarrow> string" where
  "path_stem p =
     (let name = path_name p; i = rfind name CHR ''.'' in
      if 0 < i \<and> i < int (length name) - 1 then take (nat i) name else name)"

text \<open>
  \<^verbatim>\<open>PurePath.with_suffix(suffix)\<close>: \<^verbatim>\<open>ValueError\<close> for a suffix that holds a separator, does
  not start with a dot or is a lone dot, and for a path with an empty name; otherwise the
  old suffix of the name is cut off and the new one appended.
\<close>

definition with_suffix :: "path \<Rightarrow> string \<Rightarrow> exn + path" where
  "with_suffix p suffix =
     (if CHR ''/'' \<in> set suffix then Inl ValueError
      else if (suffix \<noteq> [] \<and> hd suffix \<noteq> CHR ''.'') \<or> suffix = ''.'' then Inl ValueError
      else
        (let name = path_name p in
         if name = [] then Inl ValueError
         else
           (let old_suffix = path_suffix p;
                name' = (if old_suffix = [] then name @ suffix
                         else take (length name - length old_suffix) name @ suffix)
            in Inr (p\<lparr>p_parts := butlast (p_parts p) @ [name']\<rparr>))))"

subsection \<open>The file system under the working directory\<close>

text \<open>
  The store is the tree below the working directory: a node is a regular file with its
  content or a directory with its entries in the order \<^verbatim>\<open>os.scandir\<close> lists them. There
  are no symbolic links and no permissions; what lies outside the working directory (an
  absolute path, a \<^verbatim>\<open>'..'\<close> component) is not part of the store and is not found.
\<close>

datatype fsnode = File bytes | Dir "(string \<times> fsnode) list"

fun resolve :: "fsnode \<Rightarrow> string list \<Rightarrow> fsnode option" where
  "resolve t [] = Some t"
| "resolve (File bs) (n # ns) = None"
| "resolve (Dir es) (n # ns) =
     (case map_of es n of None \<Rightarrow> None | Some c \<Rightarrow> resolve c ns)"

text \<open>\<^verbatim>\<open>open(file, 'rb')\<close> followed by \<^verbatim>\<open>read()\<close>.\<close>

definition open_rb :: "fsnode \<Rightarrow> path \<Rightarrow> exn + bytes" where
  "open_rb t p =
     (if p_root p \<noteq> [] then Inl FileNotFoundError
      else (case resolve t (p_parts p) of
              None \<Rightarrow> Inl FileNotFoundError
            | Some (Dir es) \<Rightarrow> Inl IsADirectoryError
            | Some (File bs) \<Rightarrow> Inr bs))"

text \<open>
  \<^verbatim>\<open>open(file, 'wb')\<close> followed by \<^verbatim>\<open>write(data)\<close>: the file is created in an existing
  directory or truncated, and holds \<open>data\<close> afterwards.
\<close>

fun put :: "string list \<Rightarrow> bytes \<Rightarrow> fsnode \<Rightarrow> exn + fsnode" where
  "put [] data (File bs) = Inr (File data)"
| "put [] data (Dir es) = Inl IsADirectoryError"
| "put (n # ns) data (File bs) = Inl NotADirectoryError"
| "put (n # ns) data (Dir es) =
     (case map_of es n of
        None \<Rightarrow> if ns = [] then Inr (Dir (es @ [(n, File data)])) else Inl FileNotFoundError
      | Some c \<Rightarrow>
          (case put ns data c of
             Inl e \<Rightarrow> Inl e
           | Inr c' \<Rightarrow> Inr (Dir (AList.update n c' es))))"

definition open_wb :: "fsnode \<Rightarrow> path \<Rightarrow> bytes \<Rightarrow> exn + fsnode" where
  "open_wb t p data =
     (if p_root p \<noteq> [] then Inl FileNotFoundError else put (p_parts p) data t)"

text \<open>
  \<^verbatim>\<open>Path.mkdir(exist_ok=True)\<close>: creates the directory in its existing parent; an
  existing directory is left as it is, an existing regular file is \<^verbatim>\<open>FileExistsError\<close>.
\<close>

fun mkdir_parts :: "string list \<Rightarrow> fsnode \<Rightarrow> exn + fsnode" where
  "mkdir_parts [] (File bs) = Inl FileExistsError"
| "mkdir_parts [] (Dir es) = Inr (Dir es)"
| "mkdir_parts (n # ns) (File bs) = Inl NotADirectoryError"
| "mkdir_parts (n # ns) (Dir es) =
     (case map_of es n of
        None \<Rightarrow> if ns = [] then Inr (Dir (es @ [(n, Dir [])])) else Inl FileNotFoundError
      | Some c \<Rightarrow>
          (case mkdir_parts ns c of
             Inl e \<Rightarrow> Inl e
           | Inr c' \<Rightarrow> Inr (Dir (AList.update n c' es))))"

definition mkdir_exist_ok :: "fsnode \<Rightarrow> path \<Rightarrow> exn + fsnode" where
  "mkdir_exist_ok t p =
     (if p_root p \<noteq> [] then Inl FileNotFoundError else mkdir_parts (p_parts p) t)"

text \<open>\<^verbatim>\<open>os.path.join(a, b)\<close> of \<^verbatim>\<open>posixpath\<close>, for two arguments.\<close>

definition os_path_join :: "string \<Rightarrow> string \<Rightarrow> string" where
  "os_path_join a b =
     (if b \<noteq> [] \<and> hd b = CHR ''/'' then b
      else if a = [] \<or> last a = CHR ''/'' then a @ b
      else a @ ''/'' @ b)"

text \<open>
  \<^verbatim>\<open>os.walk(top)\<close>, top-down, on the node found at \<open>topdir\<close>: one triple
  \<^verbatim>\<open>(root, dirs, files)\<close> for the directory itself, then the walks of its subdirectories
  in listing order. Scanning something that is not a directory yields nothing (the error
  is ignored, \<^verbatim>\<open>onerror=None\<close>).
\<close>

fun os_walk :: "string \<Rightarrow> fsnode \<Rightarrow> (string \<times> string list \<times> string list) list" where
  "os_walk topdir (File bs) = []"
| "os_walk topdir (Dir es) =
     (topdir,
      map fst (filter (\<lambda>e. case snd e of Dir _ \<Rightarrow> True | File _ \<Rightarrow> False) es),
      map fst (filter (\<lambda>e. case snd e of File _ \<Rightarrow> True | Dir _ \<Rightarrow> False) es))
     # concat (map (\<lambda>e. os_walk (os_path_join topdir (fst e)) (snd e)) es)"

section \<open>The program\<close>

text \<open>Lines 39 to 43. The fourth entry of \<^verbatim>\<open>SUPPORT_SUFFIX\<close> is \<^verbatim>\<open>'bmp'\<close>, as in the source.\<close>

definition SUPPORT_SUFFIX :: "string list" where
  "SUPPORT_SUFFIX = [''.png'', ''.jpg'', ''.jpeg'', ''bmp'', ''.pdf'']"

definition MAX_SIZE :: nat where
  "MAX_SIZE = 7 * 1024 ^ 2"

definition IMAGE_DIR :: path where
  "IMAGE_DIR = Path ''tables''"

definition OUTPUT :: path where
  "OUTPUT = Path ''output''"

text \<open>
  \<^verbatim>\<open>get_all_files\<close> (lines 66 to 79), on the tree of the working directory.
  \<^verbatim>\<open>os.walk(IMAGE_DIR)\<close> walks the string \<^verbatim>\<open>'tables'\<close>; a missing directory yields nothing.
\<close>

definition get_all_files :: "fsnode \<Rightarrow> path list" where
  "get_all_files t =
     (case resolve t (p_parts IMAGE_DIR) of
        None \<Rightarrow> []
      | Some d \<Rightarrow>
          concat (map (\<lambda>(root, _, files).
                    filter (\<lambda>file. path_suffix file \<in> set SUPPORT_SUFFIX)
                      (map (\<lambda>file. truediv (Path root) file) files))
                  (os_walk ''tables'' d)))"

subsection \<open>base64\<close>

text \<open>
  \<^verbatim>\<open>base64.b64encode\<close> (RFC 4648, standard alphabet, padded): three bytes become four
  characters. The result is ASCII, so \<^verbatim>\<open>str(content, encoding='utf-8')\<close> at line 91 keeps
  it character for character; the encoder returns the text directly.
\<close>

definition b64_alphabet :: string where
  "b64_alphabet = ''ABCDEFGHIJKLMNOPQRSTUVWXYZabcdefghijklmnopqrstuvwxyz0123456789+/''"

definition b64_char :: "byte \<Rightarrow> char" where
  "b64_char w = b64_alphabet ! unat w"

fun b64encode :: "bytes \<Rightarrow> string" where
  "b64encode [] = []"
| "b64encode [a] =
     [b64_char (drop_bit 2 a), b64_char (push_bit 4 (a AND 3)), CHR ''='', CHR ''='']"
| "b64encode [a, b] =
     [b64_char (drop_bit 2 a), b64_char (push_bit 4 (a AND 3) OR drop_bit 4 b),
      b64_char (push_bit 2 (b AND 15)), CHR ''='']"
| "b64encode (a # b # c # rest) =
     [b64_char (drop_bit 2 a), b64_char (push_bit 4 (a AND 3) OR drop_bit 4 b),
      b64_char (push_bit 2 (b AND 15) OR drop_bit 6 c), b64_char (c AND 63)]
     @ b64encode rest"

text \<open>
  \<^verbatim>\<open>base64.b64decode\<close> is lenient in ways that differ between interpreter versions; the
  program only passes the provider's answer to it. It is a parameter of the model: a
  function from the text to the bytes or to the exception it raises.
\<close>

type_synonym decoder = "string \<Rightarrow> exn + bytes"

subsection \<open>Requests, the provider, the log\<close>

text \<open>
  The dictionary \<^verbatim>\<open>params\<close> is an association list in insertion order;
  \<^verbatim>\<open>params[k] = v\<close> is \<^const>\<open>AList.update\<close>. The request object is filled from the JSON
  text of the dictionary (lines 116 and 117) and carries exactly its entries.
\<close>

datatype jvalue = JStr string | JBool bool | JInt int

type_synonym request = "(string \<times> jvalue) list"

record response =
  Data :: string
  RequestId :: string

datatype remote_outcome = Response response | Raises exn

text \<open>
  The client \<^verbatim>\<open>client.RecognizeTableOCR\<close> is outside the program. Its answer to a
  request may depend on everything sent before, so it is a function of the requests made
  so far and of the request at hand.
\<close>

type_synonym client = "request list \<Rightarrow> request \<Rightarrow> remote_outcome"

text \<open>
  Log records keep the logger's name, the level and the message. The message texts of the
  source are not ASCII; a message is a constructor holding the values formatted into it:
  line 88 (the limit and the size, both divided by \<^verbatim>\<open>1024**2\<close>), line 113 (the extra
  request parameters), line 122 (the request id), line 125 (the exception), lines 138, 142
  and 147 (progress of the batch).
\<close>

datatype level = DEBUG | INFO | ERROR

datatype message =
    Msg_too_large rat rat
  | Msg_extra_params request
  | Msg_got_result string
  | Msg_exception exn
  | Msg_collecting
  | Msg_processing string
  | Msg_written string

type_synonym log_record = "string \<times> level \<times> message"

text \<open>
  The state a run acts on: the tree of the working directory, the log, the requests sent
  to the provider, and the writes made with \<^verbatim>\<open>open(excel, 'wb')\<close>, in order.
\<close>

record world =
  cwd :: fsnode
  logged :: "log_record list"
  calls :: "request list"
  written :: "(path \<times> bytes) list"

definition logging :: "string \<Rightarrow> level \<Rightarrow> message \<Rightarrow> world \<Rightarrow> world" where
  "logging logger lvl msg w = w\<lparr>logged := logged w @ [(logger, lvl, msg)]\<rparr>"

text \<open>
  \<^verbatim>\<open>_load_file\<close> (lines 82 to 91). The divisions at line 88 are by a power of two and
  exact on the sizes at hand, so the logged numbers are these rationals.
\<close>

definition load_file :: "path \<Rightarrow> world \<Rightarrow> (exn + string) \<times> world" where
  "load_file file w =
     (case open_rb (cwd w) file of
        Inl e \<Rightarrow> (Inl e, w)
      | Inr raw \<Rightarrow>
          (let content = b64encode raw; size = length content in
           if size > MAX_SIZE then
             (Inr [],
              logging ''_load_file'' ERROR
                (Msg_too_large (of_nat MAX_SIZE / 1024 ^ 2) (of_nat size / 1024 ^ 2)) w)
           else (Inr content, w)))"

text \<open>
  \<^verbatim>\<open>get_ocr_result\<close> (lines 94 to 126). \<^verbatim>\<open>pdf_page: int = None\<close> is an optional integer,
  and \<^verbatim>\<open>if pdf_page:\<close> holds for an integer other than zero. \<open>request_params\<close> is the
  dictionary built at lines 108 to 112. Only \<^verbatim>\<open>TencentCloudSDKException\<close> is caught; an
  exception of the decoder or any other exception of the client leaves the function.
\<close>

definition request_params :: "string \<Rightarrow> path \<Rightarrow> int option \<Rightarrow> request" where
  "request_params content file pdf_page =
     (let params = [(''ImageBase64'', JStr content)];
          params = (if path_suffix file = ''.pdf''
                    then AList.update ''IsPdf'' (JBool True) params else params);
          params = (case pdf_page of
                      None \<Rightarrow> params
                    | Some n \<Rightarrow> if n \<noteq> 0
                                then AList.update ''PdfPageNumber'' (JInt n) params
                                else params)
      in params)"

definition get_ocr_result ::
  "client \<Rightarrow> decoder \<Rightarrow> path \<Rightarrow> int option \<Rightarrow> world \<Rightarrow> (exn + bytes) \<times> world" where
  "get_ocr_result client b64decode file pdf_page w =
     (case load_file file w of
        (Inl e, w1) \<Rightarrow> (Inl e, w1)
      | (Inr content, w1) \<Rightarrow>
          if content = [] then (Inr [], w1)
          else
            (let params = request_params content file pdf_page;
                 w2 = logging ''get_ocr_result'' DEBUG
                        (Msg_extra_params (filter (\<lambda>(k, v). k \<noteq> ''ImageBase64'') params)) w1;
                 req = params;
                 w3 = w2\<lparr>calls := calls w2 @ [req]\<rparr>
             in case client (calls w2) req of
                  Response r \<Rightarrow>
                    (case b64decode (Data r) of
                       Inl e \<Rightarrow> (Inl e, w3)
                     | Inr data \<Rightarrow>
                         (Inr data,
                          logging ''get_ocr_result'' DEBUG (Msg_got_result (RequestId r)) w3))
                | Raises (TencentCloudSDKException m) \<Rightarrow>
                    (Inr [],
                     logging ''get_ocr_result'' ERROR
                       (Msg_exception (TencentCloudSDKException m)) w3)
                | Raises e \<Rightarrow> (Inl e, w3)))"

text \<open>
  \<^verbatim>\<open>collect_data\<close> (lines 129 to 147). \<open>excel_path\<close> is the expression of line 144 on the
  name of line 141; \<open>collect_data_loop\<close> is the loop of lines 140 to 147. An exception
  ends the run with the state reached.
\<close>

definition excel_path :: "path \<Rightarrow> exn + path" where
  "excel_path file = with_suffix (truediv OUTPUT (path_stem file)) ''.xlsx''"

fun collect_data_loop :: "client \<Rightarrow> decoder \<Rightarrow> path list \<Rightarrow> world \<Rightarrow> (exn + unit) \<times> world" where
  "collect_data_loop client b64decode [] w = (Inr (), w)"
| "collect_data_loop client b64decode (file # files) w =
     (let name = path_stem file;
          w1 = logging ''collect_data'' INFO (Msg_processing name) w
      in case get_ocr_result client b64decode file None w1 of
           (Inl e, w2) \<Rightarrow> (Inl e, w2)
         | (Inr result, w2) \<Rightarrow>
             (case excel_path file of
                Inl e \<Rightarrow> (Inl e, w2)
              | Inr excel \<Rightarrow>
                  (case open_wb (cwd w2) excel result of
                     Inl e \<Rightarrow> (Inl e, w2)
                   | Inr t \<Rightarrow>
                       collect_data_loop client b64decode files
                         (logging ''collect_data'' INFO (Msg_written name)
                            (w2\<lparr>cwd := t, written := written w2 @ [(excel, result)]\<rparr>)))))"

definition collect_data :: "client \<Rightarrow> decoder \<Rightarrow> path list \<Rightarrow> world \<Rightarrow> (exn + unit) \<times> world" where
  "collect_data client b64decode files w =
     (let w1 = logging ''collect_data'' INFO Msg_collecting w
      in case mkdir_exist_ok (cwd w1) OUTPUT of
           Inl e \<Rightarrow> (Inl e, w1)
         | Inr t \<Rightarrow> collect_data_loop client b64decode files (w1\<lparr>cwd := t\<rparr>))"

section \<open>Example inputs\<close>

text \<open>Concrete trees, clients and decoders, used to run the definitions.\<close>

definition example_tree_out :: "(string \<times> fsnode) list \<Rightarrow> fsnode" where
  "example_tree_out es =
     Dir [(''tables'',
           Dir [(''a.png'', File [1, 2]),
                (''b.pdf'', File [37, 80, 68, 70]),
                (''c.txt'', File [104, 105]),
                (''empty.jpg'', File []),
                (''sub'', Dir [(''a.jpeg'', File [3]), (''scan.bmp'', File [66, 77])])]),
          (''output'', Dir es)]"

definition example_tree :: fsnode where
  "example_tree = example_tree_out []"

definition example_world :: world where
  "example_world = \<lparr>cwd = example_tree, logged = [], calls = [], written = []\<rparr>"

definition example_client :: client where
  "example_client h q =
     (if map_of q ''IsPdf'' = Some (JBool True)
      then Raises (TencentCloudSDKException ''LimitExceeded'')
      else Response \<lparr>Data = ''eGxzeA=='', RequestId = ''req-1''\<rparr>)"

definition example_decoder :: decoder where
  "example_decoder s =
     (if s = ''eGxzeA=='' then Inr [120, 108, 115, 120] else Inl (OtherException ''binascii.Error''))"

definition steady_client :: client where
  "steady_client h q = Response \<lparr>Data = ''eGxzeA=='', RequestId = ''req-1''\<rparr>"

definition zeros :: "nat \<Rightarrow> bytes" where
  "zeros n = replicate n 0"

definition boundary_world :: "nat \<Rightarrow> world" where
  "boundary_world n =
     \<lparr>cwd = Dir [(''tables'', Dir [(''big.png'', File (zeros n))])],
      logged = [], calls = [], written = []\<rparr>"

text \<open>
  A stem is plain when it is not \<^verbatim>\<open>'.'\<close> and has no suffix of its own, as in \<^verbatim>\<open>a.png\<close> and
  unlike \<^verbatim>\<open>a.b.png\<close> (stem \<^verbatim>\<open>a.b\<close>) or \<^verbatim>\<open>..png\<close> (stem \<^verbatim>\<open>.\<close>).
\<close>

definition plain_stem :: "path \<Rightarrow> bool" where
  "plain_stem file \<longleftrightarrow>
     path_stem file \<noteq> ''.'' \<and> path_suffix \<lparr>p_root = [], p_parts = [path_stem file]\<rparr> = []"

text \<open>
  The strings \<^verbatim>\<open>os.walk\<close> yields as roots when it starts at \<^verbatim>\<open>'tables'\<close>: the start itself,
  something below it, or an absolute path (when an entry's name starts with a slash).
\<close>

definition under_tables :: "string \<Rightarrow> bool" where
  "under_tables r \<longleftrightarrow> (r \<noteq> [] \<and> hd r = CHR ''/'') \<or> r = ''tables'' \<or> take 7 r = ''tables/''"

text \<open>
  The environment of a batch. A file is readable when \<^verbatim>\<open>open(file, 'rb')\<close> succeeds and
  writable when its output path exists and \<^verbatim>\<open>open(excel, 'wb')\<close> succeeds. A tree is ready
  for a list of files when \<^verbatim>\<open>OUTPUT.mkdir(exist_ok=True)\<close> succeeds and every file is then
  readable and writable. A provider is well behaved when each of its answers is a response
  whose data the decoder accepts or a \<^verbatim>\<open>TencentCloudSDKException\<close>: the two outcomes
  \<^verbatim>\<open>get_ocr_result\<close> handles at lines 118 to 126.
\<close>

definition readable :: "fsnode \<Rightarrow> path \<Rightarrow> bool" where
  "readable t file \<longleftrightarrow> \<not> isl (open_rb t file)"

definition writable :: "fsnode \<Rightarrow> path \<Rightarrow> bool" where
  "writable t file \<longleftrightarrow>
     (case excel_path file of Inl e \<Rightarrow> False | Inr excel \<Rightarrow> \<not> isl (open_wb t excel []))"

definition batch_ready :: "fsnode \<Rightarrow> path list \<Rightarrow> bool" where
  "batch_ready t files \<longleftrightarrow>
     (case mkdir_exist_ok t OUTPUT of
        Inl e \<Rightarrow> False
      | Inr t1 \<Rightarrow> list_all (\<lambda>file. readable t1 file \<and> writable t1 file) files)"

definition provider_ok :: "client \<Rightarrow> decoder \<Rightarrow> bool" where
  "provider_ok client b64decode \<longleftrightarrow>
     (\<forall>h q. case client h q of
              Response r \<Rightarrow> \<not> isl (b64decode (Data r))
            | Raises e \<Rightarrow> (case e of TencentCloudSDKException m \<Rightarrow> True | _ \<Rightarrow> False))"

text \<open>
  The state machine of the specification, section 4.4, for one file with content \<open>raw\<close>:
  \<open>submitted\<close> is the request sent (none when the encoding is empty or too large);
  \<open>artifact\<close> is what is written, the decoded bytes of a response and the empty bytes
  after an encoding or remote failure; \<open>artifacts\<close> runs through the files, with the
  requests sent so far.
\<close>

definition raw_of :: "fsnode \<Rightarrow> path \<Rightarrow> bytes" where
  "raw_of t file = (case open_rb t file of Inl e \<Rightarrow> [] | Inr raw \<Rightarrow> raw)"

definition submitted :: "path \<Rightarrow> bytes \<Rightarrow> request list" where
  "submitted file raw =
     (let content = b64encode raw in
      if content = [] \<or> MAX_SIZE < length content then []
      else [request_params content file None])"

definition artifact :: "client \<Rightarrow> decoder \<Rightarrow> request list \<Rightarrow> path \<Rightarrow> bytes \<Rightarrow> bytes" where
  "artifact client b64decode h file raw =
     (case submitted file raw of
        [] \<Rightarrow> []
      | req # _ \<Rightarrow>
          (case client h req of
             Response r \<Rightarrow> (case b64decode (Data r) of Inl e \<Rightarrow> [] | Inr data \<Rightarrow> data)
           | Raises e \<Rightarrow> []))"

fun artifacts ::
  "client \<Rightarrow> decoder \<Rightarrow> (path \<Rightarrow> bytes) \<Rightarrow> request list \<Rightarrow> path list \<Rightarrow> bytes list" where
  "artifacts client b64decode raw h [] = []"
| "artifacts client b64decode raw h (file # files) =
     artifact client b64decode h file (raw file)
     # artifacts client b64decode raw (h @ submitted file (raw file)) files"

text \<open>
  Fault injection for one call: \<open>fail_at client hB qB m\<close> answers like \<open>client\<close>, except that
  the request \<open>qB\<close> made after the requests \<open>hB\<close> raises \<^verbatim>\<open>TencentCloudSDKException\<close>.
\<close>

definition fail_at :: "client \<Rightarrow> request list \<Rightarrow> request \<Rightarrow> string \<Rightarrow> client" where
  "fail_at client hB qB m h q =
     (if h = hB \<and> q = qB then Raises (TencentCloudSDKException m) else client h q)"

section \<open>Properties\<close>

subsection \<open>Facts about the definitions\<close>

lemma div3_step: "(5 + n) div 3 = Suc (Suc (Suc n) div 3)" for n :: nat
  by arith

lemma length_b64encode: "length (b64encode bs) = 4 * ((length bs + 2) div 3)"
  by (induction bs rule: b64encode.induct) (simp_all add: div3_step)

lemma b64encode_Nil_iff: "b64encode bs = [] \<longleftrightarrow> bs = []"
  by (cases bs rule: b64encode.cases) simp_all

lemma map_of_request_params_image:
  "map_of (request_params content file pdf_page) ''ImageBase64'' = Some (JStr content)"
  by (simp add: request_params_def Let_def AList.update_conv' split: option.splits)

lemma map_of_request_params_IsPdf:
  "map_of (request_params content file pdf_page) ''IsPdf'' =
     (if path_suffix file = ''.pdf'' then Some (JBool True) else None)"
  by (simp add: request_params_def Let_def AList.update_conv' split: option.splits)

lemma map_of_request_params_page:
  "map_of (request_params content file pdf_page) ''PdfPageNumber'' =
     (case pdf_page of None \<Rightarrow> None | Some n \<Rightarrow> if n \<noteq> 0 then Some (JInt n) else None)"
  by (simp add: request_params_def Let_def AList.update_conv' split: option.splits)

lemma load_file_accept:
  assumes "open_rb (cwd w) file = Inr raw" and "length (b64encode raw) \<le> MAX_SIZE"
  shows "load_file file w = (Inr (b64encode raw), w)"
  using assms by (simp add: load_file_def Let_def)

lemma load_file_reject:
  assumes "open_rb (cwd w) file = Inr raw" and "MAX_SIZE < length (b64encode raw)"
  shows "load_file file w =
     (Inr [], logging ''_load_file'' ERROR
        (Msg_too_large 7 (of_nat (length (b64encode raw)) / 1024 ^ 2)) w)"
  using assms by (simp add: load_file_def Let_def MAX_SIZE_def)

lemma calls_get_ocr_result_submitted:
  assumes "load_file file w = (Inr content, w1)" and "content \<noteq> []"
  shows "calls (snd (get_ocr_result client b64decode file pdf_page w)) =
           calls w1 @ [request_params content file pdf_page]"
  using assms
  by (simp add: get_ocr_result_def logging_def Let_def
      split: remote_outcome.splits sum.splits exn.splits)

lemma calls_load_file: "calls (snd (load_file file w)) = calls w"
  by (simp add: load_file_def logging_def Let_def split: sum.splits)

lemma get_ocr_result_calls:
  "\<exists>reqs. calls (snd (get_ocr_result client b64decode f pdf_page w)) = calls w @ reqs
      \<and> (\<forall>req\<in>set reqs. \<exists>content. req = request_params content f pdf_page)"
proof (cases "load_file f w")
  case (Pair r w1)
  have c1: "calls w1 = calls w" using calls_load_file [of f w] Pair by simp
  show ?thesis
  proof (cases r)
    case (Inl e)
    with Pair c1 show ?thesis by (simp add: get_ocr_result_def)
  next
    case (Inr content)
    show ?thesis
    proof (cases "content = []")
      case True
      with Pair Inr c1 show ?thesis by (simp add: get_ocr_result_def)
    next
      case False
      from calls_get_ocr_result_submitted [of f w content w1 client b64decode pdf_page]
        Pair Inr False c1
      have "calls (snd (get_ocr_result client b64decode f pdf_page w)) =
              calls w @ [request_params content f pdf_page]" by simp
      then show ?thesis by auto
    qed
  qed
qed

lemma collect_data_loop_calls:
  "\<exists>reqs. calls (snd (collect_data_loop client b64decode files w)) = calls w @ reqs
      \<and> (\<forall>req\<in>set reqs. map_of req ''PdfPageNumber'' = None)"
proof (induction files arbitrary: w)
  case Nil
  show ?case by simp
next
  case (Cons f fs)
  define w1 where "w1 = logging ''collect_data'' INFO (Msg_processing (path_stem f)) w"
  have cw1: "calls w1 = calls w" by (simp add: w1_def logging_def)
  obtain r w2 where g: "get_ocr_result client b64decode f None w1 = (r, w2)"
    by (cases "get_ocr_result client b64decode f None w1")
  from get_ocr_result_calls [of client b64decode f None w1] g cw1
  obtain reqs where reqs: "calls w2 = calls w @ reqs"
    and shape: "\<forall>req\<in>set reqs. \<exists>content. req = request_params content f None"
    by auto
  have nopage: "\<forall>req\<in>set reqs. map_of req ''PdfPageNumber'' = None"
    using shape map_of_request_params_page [of _ f None] by auto
  show ?case
  proof (cases r)
    case (Inl e)
    with g reqs nopage show ?thesis by (auto simp: Let_def w1_def [symmetric])
  next
    case (Inr result)
    show ?thesis
    proof (cases "excel_path f")
      case (Inl e)
      with g Inr reqs nopage show ?thesis by (auto simp: Let_def w1_def [symmetric])
    next
      case excel: (Inr excel)
      show ?thesis
      proof (cases "open_wb (cwd w2) excel result")
        case (Inl e)
        with g Inr excel reqs nopage show ?thesis by (auto simp: Let_def w1_def [symmetric])
      next
        case t: (Inr t)
        define w3 where "w3 = logging ''collect_data'' INFO (Msg_written (path_stem f))
                            (w2\<lparr>cwd := t, written := written w2 @ [(excel, result)]\<rparr>)"
        have cw3: "calls w3 = calls w @ reqs" using reqs by (simp add: w3_def logging_def)
        from Cons.IH [of w3] obtain reqs' where
          r': "calls (snd (collect_data_loop client b64decode fs w3)) = calls w3 @ reqs'"
          and n': "\<forall>req\<in>set reqs'. map_of req ''PdfPageNumber'' = None" by blast
        have "collect_data_loop client b64decode (f # fs) w =
                collect_data_loop client b64decode fs w3"
          using g Inr excel t by (simp add: Let_def w1_def [symmetric] w3_def)
        with r' cw3 have "calls (snd (collect_data_loop client b64decode (f # fs) w)) =
            calls w @ (reqs @ reqs')" by simp
        moreover have "\<forall>req\<in>set (reqs @ reqs'). map_of req ''PdfPageNumber'' = None"
          using nopage n' by auto
        ultimately show ?thesis by blast
      qed
    qed
  qed
qed

lemma put_then_resolve: "put ps data t = Inr t' \<Longrightarrow> resolve t' ps = Some (File data)"
proof (induction ps arbitrary: t t')
  case Nil
  then show ?case by (cases t) auto
next
  case (Cons n ns)
  show ?case
  proof (cases t)
    case (File bs)
    with Cons.prems show ?thesis by simp
  next
    case (Dir es)
    show ?thesis
    proof (cases "map_of es n")
      case None
      with Cons.prems Dir show ?thesis
        by (auto simp: map_add_def split: if_splits)
    next
      case (Some c)
      with Cons.prems Dir obtain c' where c': "put ns data c = Inr c'"
        and t': "t' = Dir (AList.update n c' es)"
        by (auto split: sum.splits)
      from Cons.IH [OF c'] t' show ?thesis by (simp add: AList.update_conv')
    qed
  qed
qed

lemma open_wb_then_open_rb: "open_wb t p data = Inr t' \<Longrightarrow> open_rb t' p = Inr data"
  by (auto simp: open_wb_def open_rb_def dest: put_then_resolve split: if_splits)

lemma get_ocr_result_no_payload:
  "load_file f w = (Inr [], w1) \<Longrightarrow> get_ocr_result client b64decode f pdf_page w = (Inr [], w1)"
  by (simp add: get_ocr_result_def)

lemma get_ocr_result_sdk_exception:
  assumes "load_file f w = (Inr content, w1)" and "content \<noteq> []"
    and "client (calls w1) (request_params content f pdf_page) = Raises (TencentCloudSDKException m)"
  shows "get_ocr_result client b64decode f pdf_page w =
     (Inr [],
      w1\<lparr>logged := logged w1 @
            [(''get_ocr_result'', DEBUG,
              Msg_extra_params (filter (\<lambda>(k, v). k \<noteq> ''ImageBase64'')
                (request_params content f pdf_page))),
             (''get_ocr_result'', ERROR, Msg_exception (TencentCloudSDKException m))],
          calls := calls w1 @ [request_params content f pdf_page]\<rparr>)"
  using assms by (simp add: get_ocr_result_def logging_def Let_def)

lemma get_ocr_result_response:
  assumes "load_file f w = (Inr content, w1)" and "content \<noteq> []"
    and "client (calls w1) (request_params content f pdf_page) = Response r"
    and "b64decode (Data r) = Inr data"
  shows "get_ocr_result client b64decode f pdf_page w =
     (Inr data,
      w1\<lparr>logged := logged w1 @
            [(''get_ocr_result'', DEBUG,
              Msg_extra_params (filter (\<lambda>(k, v). k \<noteq> ''ImageBase64'')
                (request_params content f pdf_page))),
             (''get_ocr_result'', DEBUG, Msg_got_result (RequestId r))],
          calls := calls w1 @ [request_params content f pdf_page]\<rparr>)"
  using assms by (simp add: get_ocr_result_def logging_def Let_def)

lemma collect_data_loop_step:
  assumes "get_ocr_result client b64decode f None
             (logging ''collect_data'' INFO (Msg_processing (path_stem f)) w) = (Inr result, w2)"
    and "excel_path f = Inr excel"
    and "open_wb (cwd w2) excel result = Inr t"
  shows "collect_data_loop client b64decode (f # fs) w =
           collect_data_loop client b64decode fs
             (logging ''collect_data'' INFO (Msg_written (path_stem f))
                (w2\<lparr>cwd := t, written := written w2 @ [(excel, result)]\<rparr>))"
  using assms by (simp add: Let_def)

lemma logging_fields:
  "cwd (logging l v m w) = cwd w"
  "calls (logging l v m w) = calls w"
  "written (logging l v m w) = written w"
  "logged (logging l v m w) = logged w @ [(l, v, m)]"
  by (simp_all add: logging_def)

lemma OUTPUT_eq: "OUTPUT = \<lparr>p_root = [], p_parts = [''output'']\<rparr>"
  by (simp add: OUTPUT_def Path_def splitroot_def)

lemma split_sep_no_sep: "x \<in> set (split_sep s) \<Longrightarrow> CHR ''/'' \<notin> set x"
proof (induction s arbitrary: x)
  case Nil
  then show ?case by simp
next
  case (Cons c cs)
  then show ?case by (cases "split_sep cs") (auto split: if_splits)
qed

lemma split_sep_plain: "CHR ''/'' \<notin> set s \<Longrightarrow> split_sep s = [s]"
  by (induction s) auto

lemma Path_parts_no_sep: "x \<in> set (p_parts (Path s)) \<Longrightarrow> CHR ''/'' \<notin> set x"
  by (auto simp: Path_def Let_def split: prod.splits dest: split_sep_no_sep)

lemma truediv_parts_no_sep:
  assumes "\<forall>x\<in>set (p_parts p). CHR ''/'' \<notin> set x"
  shows "\<forall>x\<in>set (p_parts (truediv p key)). CHR ''/'' \<notin> set x"
  using assms Path_parts_no_sep [of _ key] by (auto simp: truediv_def Let_def)

lemma discovered_shape:
  assumes "f \<in> set (get_all_files t)"
  shows "path_suffix f \<in> set SUPPORT_SUFFIX"
    and "\<forall>x\<in>set (p_parts f). CHR ''/'' \<notin> set x"
proof -
  from assms obtain r n where f: "f = truediv (Path r) n"
    and s: "path_suffix f \<in> set SUPPORT_SUFFIX"
    by (auto simp: get_all_files_def split: option.splits)
  show "path_suffix f \<in> set SUPPORT_SUFFIX" by (rule s)
  have "\<forall>x\<in>set (p_parts (Path r)). CHR ''/'' \<notin> set x"
    using Path_parts_no_sep by blast
  from truediv_parts_no_sep [OF this] f
  show "\<forall>x\<in>set (p_parts f). CHR ''/'' \<notin> set x" by simp
qed

lemma stem_of_suffixed:
  assumes "path_suffix f \<noteq> []"
  shows "path_stem f \<noteq> []" and "set (path_stem f) \<subseteq> set (path_name f)"
proof -
  let ?i = "rfind (path_name f) CHR ''.''"
  from assms have c: "0 < ?i \<and> ?i < int (length (path_name f)) - 1"
    by (auto simp: path_suffix_def Let_def split: if_splits)
  then have st: "path_stem f = take (nat ?i) (path_name f)"
    by (simp add: path_stem_def Let_def)
  from c show "path_stem f \<noteq> []" unfolding st by auto
  show "set (path_stem f) \<subseteq> set (path_name f)" unfolding st by (rule set_take_subset)
qed

lemma discovered_stem:
  assumes "f \<in> set (get_all_files t)"
  shows "path_stem f \<noteq> []" and "CHR ''/'' \<notin> set (path_stem f)"
proof -
  from discovered_shape(1) [OF assms] have sf: "path_suffix f \<noteq> []"
    by (auto simp: SUPPORT_SUFFIX_def)
  from stem_of_suffixed(1) [OF sf] show "path_stem f \<noteq> []" .
  have "p_parts f \<noteq> []" using sf by (auto simp: path_suffix_def path_name_def)
  then have "path_name f \<in> set (p_parts f)" by (simp add: path_name_def)
  with discovered_shape(2) [OF assms] have "CHR ''/'' \<notin> set (path_name f)" by blast
  with stem_of_suffixed(2) [OF sf] show "CHR ''/'' \<notin> set (path_stem f)" by blast
qed

lemma truediv_OUTPUT_plain:
  assumes "s \<noteq> []" and "s \<noteq> ''.''" and "CHR ''/'' \<notin> set s"
  shows "truediv OUTPUT s = \<lparr>p_root = [], p_parts = [''output'', s]\<rparr>"
proof -
  have "hd s \<noteq> CHR ''/''" using assms(1,3) by (cases s) auto
  then have "splitroot s = ([], s)" by (simp add: splitroot_def)
  then have "Path s = \<lparr>p_root = [], p_parts = [s]\<rparr>"
    using assms by (simp add: Path_def split_sep_plain)
  then show ?thesis by (simp add: truediv_def OUTPUT_eq)
qed

lemma path_suffix_last:
  "path_suffix \<lparr>p_root = r, p_parts = ps @ [s]\<rparr> = path_suffix \<lparr>p_root = [], p_parts = [s]\<rparr>"
  by (simp add: path_suffix_def path_name_def)

lemma excel_path_plain:
  assumes "path_stem f \<noteq> []" and "CHR ''/'' \<notin> set (path_stem f)" and "plain_stem f"
  shows "excel_path f = Inr \<lparr>p_root = [], p_parts = [''output'', path_stem f @ ''.xlsx'']\<rparr>"
proof -
  have t: "truediv OUTPUT (path_stem f) = \<lparr>p_root = [], p_parts = [''output'', path_stem f]\<rparr>"
    using assms by (intro truediv_OUTPUT_plain) (auto simp: plain_stem_def)
  have s: "path_suffix \<lparr>p_root = [], p_parts = [''output'', path_stem f]\<rparr> = []"
    using path_suffix_last [of "[]" "[''output'']" "path_stem f"] assms(3)
    by (simp add: plain_stem_def)
  show ?thesis
    using assms(1) by (simp add: excel_path_def t with_suffix_def s path_name_def)
qed

lemma excel_path_name_only:
  "excel_path f = excel_path \<lparr>p_root = [], p_parts = [path_name f]\<rparr>"
  by (simp add: excel_path_def path_stem_def path_name_def)

lemma Path_plain:
  assumes "s \<noteq> []" and "s \<noteq> ''.''" and "CHR ''/'' \<notin> set s"
  shows "Path s = \<lparr>p_root = [], p_parts = [s]\<rparr>"
proof -
  have "hd s \<noteq> CHR ''/''" using assms(1,3) by (cases s) auto
  then have "splitroot s = ([], s)" by (simp add: splitroot_def)
  then show ?thesis using assms by (simp add: Path_def split_sep_plain)
qed

lemma truediv_plain:
  assumes "s \<noteq> []" and "s \<noteq> ''.''" and "CHR ''/'' \<notin> set s"
  shows "truediv p s = \<lparr>p_root = p_root p, p_parts = p_parts p @ [s]\<rparr>"
  by (simp add: truediv_def Path_plain [OF assms])

lemma Path_tables: "Path ''tables'' = \<lparr>p_root = [], p_parts = [''tables'']\<rparr>"
  by (simp add: Path_plain)

lemma Path_tables_sub: "Path ''tables/sub'' = \<lparr>p_root = [], p_parts = [''tables'', ''sub'']\<rparr>"
  by (simp add: Path_def splitroot_def)

lemma put_isl_data: "isl (put ps d t) = isl (put ps d' t)"
proof (induction ps arbitrary: t)
  case Nil
  show ?case by (cases t) simp_all
next
  case (Cons n ns)
  show ?case
  proof (cases t)
    case (File bs)
    then show ?thesis by simp
  next
    case (Dir es)
    show ?thesis
    proof (cases "map_of es n")
      case None
      with Dir show ?thesis by simp
    next
      case (Some c)
      with Dir Cons.IH [of c] show ?thesis by (auto split: sum.splits)
    qed
  qed
qed

lemma put_other_entry:
  assumes "put (n # ns) d t = Inr t'" and "m \<noteq> n"
  shows "resolve t' (m # ms) = resolve t (m # ms)"
proof (cases t)
  case (File bs)
  with assms show ?thesis by simp
next
  case (Dir es)
  with assms show ?thesis
    by (auto simp: map_add_def AList.update_conv' split: option.splits sum.splits if_splits)
qed

lemma mkdir_other_entry:
  assumes "mkdir_parts (n # ns) t = Inr t'" and "m \<noteq> n"
  shows "resolve t' (m # ms) = resolve t (m # ms)"
proof (cases t)
  case (File bs)
  with assms show ?thesis by simp
next
  case (Dir es)
  with assms show ?thesis
    by (auto simp: map_add_def AList.update_conv' split: option.splits sum.splits if_splits)
qed

lemma put_preserves_put:
  "put ps d t = Inr t' \<Longrightarrow> \<not> isl (put qs e t) \<Longrightarrow> \<not> isl (put qs e t')"
proof (induction ps arbitrary: t t' qs)
  case Nil
  then show ?case by (cases t; cases qs) auto
next
  case (Cons n ns)
  from Cons.prems(1) obtain es where t: "t = Dir es" by (cases t) auto
  from Cons.prems(2) t obtain m ms where qs: "qs = m # ms" by (cases qs) auto
  show ?case
  proof (cases "map_of es n")
    case None
    with Cons.prems(1) t have ns: "ns = []" and t': "t' = Dir (es @ [(n, File d)])"
      by (auto split: if_splits)
    show ?thesis
    proof (cases "m = n")
      case True
      with Cons.prems(2) t qs None have "ms = []" by (auto split: if_splits)
      with True t' qs None show ?thesis by (simp add: map_add_def)
    next
      case False
      then have "map_of (es @ [(n, File d)]) m = map_of es m"
        by (simp add: map_add_def split: option.splits)
      with Cons.prems(2) t t' qs show ?thesis
        by (auto split: option.splits sum.splits if_splits)
    qed
  next
    case (Some c)
    with Cons.prems(1) t obtain c' where c': "put ns d c = Inr c'"
      and t': "t' = Dir (AList.update n c' es)"
      by (auto split: sum.splits)
    show ?thesis
    proof (cases "m = n")
      case True
      with Cons.prems(2) t qs Some have "\<not> isl (put ms e c)" by (auto split: sum.splits)
      from Cons.IH [OF c' this] True t' qs show ?thesis
        by (auto simp: AList.update_conv' split: sum.splits)
    next
      case False
      then have "map_of (AList.update n c' es) m = map_of es m"
        by (simp add: AList.update_conv')
      with Cons.prems(2) t t' qs show ?thesis
        by (auto split: option.splits sum.splits if_splits)
    qed
  qed
qed

lemma under_tables_join: "under_tables a \<Longrightarrow> under_tables (os_path_join a b)"
  by (auto simp: under_tables_def os_path_join_def)

lemma os_walk_under_tables:
  "under_tables topdir \<Longrightarrow> e \<in> set (os_walk topdir d) \<Longrightarrow> under_tables (fst e)"
proof (induction topdir d arbitrary: e rule: os_walk.induct)
  case (1 topdir bs)
  then show ?case by simp
next
  case (2 topdir es)
  from "2.prems"(2) consider "e = (topdir,
        map fst (filter (\<lambda>e. case snd e of Dir _ \<Rightarrow> True | File _ \<Rightarrow> False) es),
        map fst (filter (\<lambda>e. case snd e of File _ \<Rightarrow> True | Dir _ \<Rightarrow> False) es))"
    | x where "x \<in> set es" and "e \<in> set (os_walk (os_path_join topdir (fst x)) (snd x))"
    by auto
  then show ?case
  proof cases
    case 1
    with "2.prems"(1) show ?thesis by simp
  next
    case 2
    from "2.IH" [OF 2(1) under_tables_join [OF "2.prems"(1)] 2(2)] show ?thesis .
  qed
qed

lemma split_sep_tables: "split_sep (''tables/'' @ s) = ''tables'' # split_sep s"
  by (cases "split_sep s") simp_all

lemma Path_under_tables:
  assumes "under_tables r"
  shows "p_root (Path r) \<noteq> [] \<or> (\<exists>qs. p_parts (Path r) = ''tables'' # qs)"
proof -
  consider "r \<noteq> [] \<and> hd r = CHR ''/''" | "r = ''tables''" | "take 7 r = ''tables/''"
    using assms by (auto simp: under_tables_def)
  then show ?thesis
  proof cases
    case 1
    then show ?thesis by (simp add: Path_def splitroot_def Let_def)
  next
    case 2
    then show ?thesis by (simp add: Path_tables)
  next
    case 3
    then obtain s where r: "r = ''tables/'' @ s" by (metis append_take_drop_id)
    have "splitroot r = ([], r)" unfolding r by (simp add: splitroot_def)
    then have "p_parts (Path r) = filter (\<lambda>x. x \<noteq> [] \<and> x \<noteq> ''.'') (split_sep r)"
      by (simp add: Path_def)
    also have "split_sep r = ''tables'' # split_sep s"
      unfolding r by (rule split_sep_tables)
    finally show ?thesis by simp
  qed
qed

lemma discovered_under_tables:
  assumes "f \<in> set (get_all_files t)"
  shows "p_root f \<noteq> [] \<or> (\<exists>qs. p_parts f = ''tables'' # qs)"
proof -
  from assms obtain d e n where e: "e \<in> set (os_walk ''tables'' d)"
    and f: "f = truediv (Path (fst e)) n"
    by (auto simp: get_all_files_def split: option.splits)
  have "under_tables ''tables''" by (simp add: under_tables_def)
  from os_walk_under_tables [OF this e] have "under_tables (fst e)" .
  from Path_under_tables [OF this] show ?thesis
    unfolding f by (auto simp: truediv_def Let_def)
qed

lemma excel_path_not_tables:
  assumes "excel_path g = Inr p"
  shows "p_root p \<noteq> [] \<or> (\<exists>n ns. p_parts p = n # ns \<and> n \<noteq> ''tables'')"
proof (cases "p_root (Path (path_stem g)) = []")
  case False
  then have "truediv OUTPUT (path_stem g) = Path (path_stem g)" by (simp add: truediv_def)
  with assms False show ?thesis
    by (auto simp: excel_path_def with_suffix_def Let_def split: if_splits)
next
  case True
  define ks where "ks = p_parts (Path (path_stem g))"
  have td: "truediv OUTPUT (path_stem g) = \<lparr>p_root = [], p_parts = ''output'' # ks\<rparr>"
    using True by (simp add: truediv_def OUTPUT_eq ks_def)
  show ?thesis
  proof (cases ks)
    case Nil
    have "path_suffix \<lparr>p_root = [], p_parts = [''output'']\<rparr> = []"
      by (simp add: path_suffix_def path_name_def)
    with assms td Nil show ?thesis
      by (auto simp: excel_path_def with_suffix_def Let_def path_name_def split: if_splits)
  next
    case (Cons k ks')
    with assms td show ?thesis
      by (auto simp: excel_path_def with_suffix_def Let_def split: if_splits)
  qed
qed

lemma provider_okD:
  assumes "provider_ok client b64decode"
  shows "(\<exists>r data. client h q = Response r \<and> b64decode (Data r) = Inr data)
       \<or> (\<exists>m. client h q = Raises (TencentCloudSDKException m))"
proof -
  from assms have *: "case client h q of
              Response r \<Rightarrow> \<not> isl (b64decode (Data r))
            | Raises e \<Rightarrow> (case e of TencentCloudSDKException m \<Rightarrow> True | _ \<Rightarrow> False)"
    unfolding provider_ok_def by blast
  show ?thesis
  proof (cases "client h q")
    case (Response r)
    with * have "\<not> isl (b64decode (Data r))" by simp
    then obtain data where "b64decode (Data r) = Inr data" by (cases "b64decode (Data r)") auto
    with Response show ?thesis by blast
  next
    case (Raises e)
    with * show ?thesis by (cases e) auto
  qed
qed

text \<open>One call of the recognition step against the state machine.\<close>

lemma get_ocr_result_artifact:
  assumes "open_rb (cwd w) f = Inr raw" and "provider_ok client b64decode"
  shows "\<exists>w2. get_ocr_result client b64decode f None w =
             (Inr (artifact client b64decode (calls w) f raw), w2)
           \<and> calls w2 = calls w @ submitted f raw
           \<and> cwd w2 = cwd w \<and> written w2 = written w"
proof (cases "MAX_SIZE < length (b64encode raw)")
  case True
  from load_file_reject [OF assms(1) True] have
    "load_file f w = (Inr [], logging ''_load_file'' ERROR
        (Msg_too_large 7 (of_nat (length (b64encode raw)) / 1024 ^ 2)) w)" .
  from get_ocr_result_no_payload [OF this, of client b64decode None] True
  show ?thesis by (simp add: artifact_def submitted_def logging_fields)
next
  case False
  then have le: "length (b64encode raw) \<le> MAX_SIZE" by simp
  note l = load_file_accept [OF assms(1) le]
  show ?thesis
  proof (cases "b64encode raw = []")
    case True
    with l have "load_file f w = (Inr [], w)" by simp
    from get_ocr_result_no_payload [OF this, of client b64decode None] True
    show ?thesis by (simp add: artifact_def submitted_def)
  next
    case ne: False
    have sub: "submitted f raw = [request_params (b64encode raw) f None]"
      using ne False by (simp add: submitted_def)
    from provider_okD [OF assms(2), of "calls w" "request_params (b64encode raw) f None"]
    show ?thesis
    proof (elim disjE exE conjE)
      fix r data
      assume c: "client (calls w) (request_params (b64encode raw) f None) = Response r"
        and d: "b64decode (Data r) = Inr data"
      from get_ocr_result_response [where client = client and b64decode = b64decode, OF l ne c d] c d
      show ?thesis by (simp add: artifact_def sub)
    next
      fix m
      assume c: "client (calls w) (request_params (b64encode raw) f None) =
                   Raises (TencentCloudSDKException m)"
      from get_ocr_result_sdk_exception [where client = client and b64decode = b64decode, OF l ne c] c
      show ?thesis by (simp add: artifact_def sub)
    qed
  qed
qed

lemma put_keeps_files:
  "put ps d t = Inr t' \<Longrightarrow> resolve t qs = Some (File c) \<Longrightarrow> \<exists>c'. resolve t' qs = Some (File c')"
proof (induction ps arbitrary: t t' qs)
  case Nil
  then show ?case by (cases t; cases qs) auto
next
  case (Cons n ns)
  from Cons.prems(1) obtain es where t: "t = Dir es" by (cases t) auto
  from Cons.prems(2) t obtain m ms where qs: "qs = m # ms" by (cases qs) auto
  show ?case
  proof (cases "m = n")
    case False
    from put_other_entry [OF Cons.prems(1) False, of ms] Cons.prems(2) qs
    show ?thesis by simp
  next
    case True
    with Cons.prems(2) t qs obtain c0 where c0: "map_of es n = Some c0"
      and r0: "resolve c0 ms = Some (File c)"
      by (auto split: option.splits)
    with Cons.prems(1) t obtain c' where c': "put ns d c0 = Inr c'"
      and t': "t' = Dir (AList.update n c' es)"
      by (auto split: sum.splits)
    from Cons.IH [OF c' r0] obtain c'' where "resolve c' ms = Some (File c'')" by blast
    with True t' qs show ?thesis by (simp add: AList.update_conv')
  qed
qed

lemma open_rb_InrD:
  "open_rb t f = Inr raw \<Longrightarrow> p_root f = [] \<and> resolve t (p_parts f) = Some (File raw)"
  by (auto simp: open_rb_def split: if_splits option.splits fsnode.splits)

lemma open_wb_InrD: "open_wb t p d = Inr t' \<Longrightarrow> p_root p = [] \<and> put (p_parts p) d t = Inr t'"
  by (auto simp: open_wb_def split: if_splits)

lemma readable_iff: "readable t f \<longleftrightarrow> (\<exists>raw. open_rb t f = Inr raw)"
  by (cases "open_rb t f") (simp_all add: readable_def)

lemma open_wb_isl_data: "isl (open_wb t p d) = isl (open_wb t p d')"
  using put_isl_data [of "p_parts p" d t d'] by (simp add: open_wb_def)

lemma open_wb_keeps_readable:
  assumes "open_wb t p d = Inr t'" and "readable t q"
  shows "readable t' q"
proof -
  from assms(2) obtain raw where "open_rb t q = Inr raw" by (auto simp: readable_iff)
  from open_rb_InrD [OF this] have q: "p_root q = []"
    and r: "resolve t (p_parts q) = Some (File raw)" by simp_all
  from put_keeps_files [OF open_wb_InrD [OF assms(1), THEN conjunct2] r]
  obtain c' where "resolve t' (p_parts q) = Some (File c')" by blast
  with q show ?thesis by (simp add: readable_def open_rb_def)
qed

lemma open_wb_keeps_writable:
  assumes "open_wb t p d = Inr t'" and "writable t g"
  shows "writable t' g"
proof -
  from assms(2) obtain p' where e: "excel_path g = Inr p'" and w: "\<not> isl (open_wb t p' [])"
    by (auto simp: writable_def split: sum.splits)
  from w have r: "p_root p' = []" and "\<not> isl (put (p_parts p') [] t)"
    by (auto simp: open_wb_def split: if_splits)
  from put_preserves_put [OF open_wb_InrD [OF assms(1), THEN conjunct2] this(2)] r
  have "\<not> isl (open_wb t' p' [])" by (simp add: open_wb_def)
  with e show ?thesis by (simp add: writable_def)
qed

lemma open_wb_keeps_tables:
  assumes "open_wb t p d = Inr t'" and "excel_path g = Inr p"
    and "p_parts f = ''tables'' # qs"
  shows "open_rb t' f = open_rb t f"
proof -
  from open_wb_InrD [OF assms(1)] have r: "p_root p = []"
    and pt: "put (p_parts p) d t = Inr t'" by simp_all
  from excel_path_not_tables [OF assms(2)] r obtain n ns where
    ps: "p_parts p = n # ns" and n: "n \<noteq> ''tables''" by auto
  from n have "''tables'' \<noteq> n" by simp
  from put_other_entry [OF pt [unfolded ps] this, of qs]
  show ?thesis by (simp add: open_rb_def assms(3))
qed

lemma collect_data_loop_artifacts:
  assumes "provider_ok client b64decode"
    and "\<forall>f\<in>set fs. (\<exists>qs. p_parts f = ''tables'' # qs)
           \<and> open_rb (cwd w) f = Inr (raw f) \<and> writable (cwd w) f"
  shows "\<exists>w' new. collect_data_loop client b64decode fs w = (Inr (), w')
     \<and> written w' = written w @ new
     \<and> map (Inr \<circ> fst) new = map excel_path fs
     \<and> map snd new = artifacts client b64decode raw (calls w) fs
     \<and> calls w' = calls w @ concat (map (\<lambda>f. submitted f (raw f)) fs)
     \<and> (\<forall>q. readable (cwd w) q \<longrightarrow> readable (cwd w') q)
     \<and> (\<forall>f\<in>set fs. \<exists>p. excel_path f = Inr p \<and> readable (cwd w') p)"
  using assms(2)
proof (induction fs arbitrary: w)
  case Nil
  show ?case by simp
next
  case (Cons f fs)
  define w1 where "w1 = logging ''collect_data'' INFO (Msg_processing (path_stem f)) w"
  have w1: "cwd w1 = cwd w" "calls w1 = calls w" "written w1 = written w"
    by (simp_all add: w1_def logging_fields)
  from Cons.prems have rf: "open_rb (cwd w1) f = Inr (raw f)" and wf: "writable (cwd w) f"
    by (simp_all add: w1)
  from get_ocr_result_artifact [OF rf assms(1)] obtain w2 where
    g: "get_ocr_result client b64decode f None w1 =
          (Inr (artifact client b64decode (calls w) f (raw f)), w2)"
    and w2: "calls w2 = calls w @ submitted f (raw f)" "cwd w2 = cwd w" "written w2 = written w"
    by (auto simp: w1)
  define a where "a = artifact client b64decode (calls w) f (raw f)"
  from wf obtain p where e: "excel_path f = Inr p" and "\<not> isl (open_wb (cwd w) p [])"
    by (auto simp: writable_def split: sum.splits)
  then have "\<not> isl (open_wb (cwd w2) p a)"
    using open_wb_isl_data [of "cwd w" p a "[]"] by (simp add: w2)
  then obtain t where o: "open_wb (cwd w2) p a = Inr t"
    by (cases "open_wb (cwd w2) p a") auto
  define w3 where "w3 = logging ''collect_data'' INFO (Msg_written (path_stem f))
                     (w2\<lparr>cwd := t, written := written w2 @ [(p, a)]\<rparr>)"
  have w3: "cwd w3 = t" "calls w3 = calls w @ submitted f (raw f)"
    "written w3 = written w @ [(p, a)]"
    by (simp_all add: w3_def logging_fields w2)
  have step: "collect_data_loop client b64decode (f # fs) w =
                collect_data_loop client b64decode fs w3"
    using collect_data_loop_step [OF g [unfolded w1_def a_def [symmetric]] e o]
    by (simp add: w3_def)
  have o': "open_wb (cwd w) p a = Inr t" using o by (simp add: w2)
  have inv: "\<forall>f'\<in>set fs. (\<exists>qs. p_parts f' = ''tables'' # qs)
           \<and> open_rb (cwd w3) f' = Inr (raw f') \<and> writable (cwd w3) f'"
  proof
    fix f' assume "f' \<in> set fs"
    with Cons.prems obtain qs where q: "p_parts f' = ''tables'' # qs"
      and r: "open_rb (cwd w) f' = Inr (raw f')" and wr: "writable (cwd w) f'" by auto
    from open_wb_keeps_tables [OF o' e q] r have "open_rb (cwd w3) f' = Inr (raw f')"
      by (simp add: w3)
    moreover from open_wb_keeps_writable [OF o' wr] have "writable (cwd w3) f'"
      by (simp add: w3)
    ultimately show "(\<exists>qs. p_parts f' = ''tables'' # qs)
           \<and> open_rb (cwd w3) f' = Inr (raw f') \<and> writable (cwd w3) f'"
      using q by blast
  qed
  from Cons.IH [OF inv] obtain w' new where
    run: "collect_data_loop client b64decode fs w3 = (Inr (), w')"
    and wr: "written w' = written w3 @ new"
    and paths: "map (Inr \<circ> fst) new = map excel_path fs"
    and arts: "map snd new = artifacts client b64decode raw (calls w3) fs"
    and cl: "calls w' = calls w3 @ concat (map (\<lambda>f. submitted f (raw f)) fs)"
    and keep: "\<forall>q. readable (cwd w3) q \<longrightarrow> readable (cwd w') q"
    and outs: "\<forall>f\<in>set fs. \<exists>p. excel_path f = Inr p \<and> readable (cwd w') p"
    by blast
  have pfile: "readable (cwd w3) p"
    using open_wb_then_open_rb [OF o'] by (simp add: readable_iff w3)
  have "collect_data_loop client b64decode (f # fs) w = (Inr (), w')"
    using step run by simp
  moreover have "written w' = written w @ ((p, a) # new)" using wr by (simp add: w3)
  moreover have "map (Inr \<circ> fst) ((p, a) # new) = map excel_path (f # fs)"
    using paths e by simp
  moreover have "map snd ((p, a) # new) = artifacts client b64decode raw (calls w) (f # fs)"
    using arts by (simp add: w3 a_def)
  moreover have "calls w' = calls w @ concat (map (\<lambda>f. submitted f (raw f)) (f # fs))"
    using cl by (simp add: w3)
  moreover have "\<forall>q. readable (cwd w) q \<longrightarrow> readable (cwd w') q"
    using keep open_wb_keeps_readable [OF o'] by (simp add: w3)
  moreover have "\<forall>f'\<in>set (f # fs). \<exists>p. excel_path f' = Inr p \<and> readable (cwd w') p"
    using outs e pfile keep by auto
  ultimately show ?case by blast
qed

lemma mkdir_keeps_tables:
  assumes "mkdir_exist_ok t OUTPUT = Inr t1" and "p_parts f = ''tables'' # qs"
  shows "open_rb t1 f = open_rb t f"
proof -
  from assms(1) have "mkdir_parts (''output'' # []) t = Inr t1"
    by (simp add: mkdir_exist_ok_def OUTPUT_eq)
  from mkdir_other_entry [OF this, of "''tables''" qs]
  show ?thesis by (simp add: open_rb_def assms(2))
qed

lemma batch_readyD:
  assumes "batch_ready t fs"
  obtains t1 where "mkdir_exist_ok t OUTPUT = Inr t1"
    and "\<forall>f\<in>set fs. readable t1 f \<and> writable t1 f"
  using assms by (auto simp: batch_ready_def list_all_iff split: sum.splits)

lemma batch_ready_subset:
  assumes "batch_ready t fs" and "set gs \<subseteq> set fs"
  shows "batch_ready t gs"
  using assms by (auto simp: batch_ready_def list_all_iff split: sum.splits)

lemma collect_data_artifacts:
  assumes "provider_ok client b64decode"
    and "batch_ready (cwd w) fs"
    and "set fs \<subseteq> set (get_all_files t0)"
  shows "\<exists>w' new. collect_data client b64decode fs w = (Inr (), w')
     \<and> written w' = written w @ new
     \<and> map (Inr \<circ> fst) new = map excel_path fs
     \<and> map snd new = artifacts client b64decode (raw_of (cwd w)) (calls w) fs
     \<and> calls w' = calls w @ concat (map (\<lambda>f. submitted f (raw_of (cwd w) f)) fs)
     \<and> (\<forall>f\<in>set fs. \<exists>p. excel_path f = Inr p \<and> readable (cwd w') p)"
proof -
  from assms(2) obtain t1 where mk: "mkdir_exist_ok (cwd w) OUTPUT = Inr t1"
    and rw: "\<forall>f\<in>set fs. readable t1 f \<and> writable t1 f"
    by (rule batch_readyD)
  define w1 where "w1 = (logging ''collect_data'' INFO Msg_collecting w)\<lparr>cwd := t1\<rparr>"
  have w1: "cwd w1 = t1" "calls w1 = calls w" "written w1 = written w"
    by (simp_all add: w1_def logging_fields)
  have run: "collect_data client b64decode fs w = collect_data_loop client b64decode fs w1"
    using mk by (simp add: collect_data_def Let_def logging_fields w1_def)
  have inv: "\<forall>f\<in>set fs. (\<exists>qs. p_parts f = ''tables'' # qs)
           \<and> open_rb (cwd w1) f = Inr (raw_of (cwd w) f) \<and> writable (cwd w1) f"
  proof
    fix f assume f: "f \<in> set fs"
    with rw obtain raw where r: "open_rb t1 f = Inr raw" and wr: "writable t1 f"
      by (auto simp: readable_iff)
    from open_rb_InrD [OF r] have "p_root f = []" by simp
    with discovered_under_tables [of f t0] f assms(3)
    obtain qs where q: "p_parts f = ''tables'' # qs" by auto
    have "open_rb (cwd w) f = Inr raw"
      using mkdir_keeps_tables [OF mk q] r by simp
    then have "raw_of (cwd w) f = raw"
      by (simp add: raw_of_def)
    with r wr q show "(\<exists>qs. p_parts f = ''tables'' # qs)
           \<and> open_rb (cwd w1) f = Inr (raw_of (cwd w) f) \<and> writable (cwd w1) f"
      by (simp add: w1)
  qed
  from collect_data_loop_artifacts [OF assms(1) inv]
  show ?thesis unfolding run w1 by blast
qed

lemma artifacts_cong:
  assumes "\<forall>h' q. c2 (h0 @ h') q = c1 (h0 @ h') q"
  shows "artifacts c2 d raw h0 fs = artifacts c1 d raw h0 fs"
  using assms
proof (induction fs arbitrary: h0)
  case Nil
  show ?case by simp
next
  case (Cons f fs)
  from Cons.prems have "c2 h0 q = c1 h0 q" for q
    using spec [of _ "[]"] by (metis append_Nil2)
  then have a: "artifact c2 d h0 f (raw f) = artifact c1 d h0 f (raw f)"
    by (simp add: artifact_def split: list.splits)
  have "\<forall>h' q. c2 ((h0 @ submitted f (raw f)) @ h') q = c1 ((h0 @ submitted f (raw f)) @ h') q"
    using Cons.prems by simp
  from Cons.IH [OF this] a show ?case by simp
qed

lemma artifacts_failure_at:
  assumes "i < length fs"
    and "submitted (fs ! i) (raw (fs ! i)) = [qB]"
    and "hB = h @ concat (map (\<lambda>f. submitted f (raw f)) (take i fs))"
    and "\<forall>h' q. (h', q) \<noteq> (hB, qB) \<longrightarrow> c2 h' q = c1 h' q"
    and "c2 hB qB = Raises e"
  shows "artifacts c2 d raw h fs = (artifacts c1 d raw h fs)[i := []]"
  using assms(1,2,3)
proof (induction fs arbitrary: h i)
  case Nil
  then show ?case by simp
next
  case (Cons f fs)
  show ?case
  proof (cases i)
    case 0
    with Cons.prems have hB: "hB = h" and sub: "submitted f (raw f) = [qB]" by simp_all
    have a: "artifact c2 d h f (raw f) = []"
      using assms(5) by (simp add: artifact_def sub hB)
    have "\<forall>h' q. c2 ((h @ [qB]) @ h') q = c1 ((h @ [qB]) @ h') q"
      using assms(4) by (simp add: hB)
    from artifacts_cong [OF this] a 0 show ?thesis by (simp add: sub)
  next
    case (Suc j)
    with Cons.prems have j: "j < length fs"
      and sub: "submitted (fs ! j) (raw (fs ! j)) = [qB]"
      and hB: "hB = (h @ submitted f (raw f)) @ concat (map (\<lambda>f. submitted f (raw f)) (take j fs))"
      by simp_all
    have a: "artifact c2 d h f (raw f) = artifact c1 d h f (raw f)"
    proof (cases "submitted f (raw f)")
      case Nil
      then show ?thesis by (simp add: artifact_def)
    next
      case (Cons req reqs)
      then have "hB \<noteq> h" using hB by simp
      then have "(h, req) \<noteq> (hB, qB)" by simp
      with assms(4) [rule_format, of h req] have "c2 h req = c1 h req" by simp
      with Cons show ?thesis by (simp add: artifact_def)
    qed
    from Cons.IH [OF j sub hB] a Suc show ?thesis by simp
  qed
qed

lemma pairs_eqI:
  assumes "map (Inr \<circ> fst) xs = (map (Inr \<circ> fst) ys :: ('e + 'a) list)"
    and "map snd xs = map snd ys"
  shows "xs = ys"
proof -
  have "map (Inr :: 'a \<Rightarrow> 'e + 'a) (map fst xs) = map Inr (map fst ys)"
    using assms(1) by (simp only: map_map)
  then have "map fst xs = map fst ys"
    using inj_map_eq_map [OF inj_Inr] by blast
  with assms(2) show ?thesis by (metis zip_map_fst_snd)
qed

lemma provider_ok_fail_at:
  assumes "provider_ok client b64decode"
  shows "provider_ok (fail_at client hB qB m) b64decode"
  using assms unfolding provider_ok_def fail_at_def by simp

lemma submitted_accepted:
  assumes "raw \<noteq> []" and "length (b64encode raw) \<le> MAX_SIZE"
  shows "submitted f raw = [request_params (b64encode raw) f None]"
  using assms by (simp add: submitted_def b64encode_Nil_iff)

lemma map_update_same: "f (xs ! i) = f x \<Longrightarrow> map f (xs[i := x]) = map f xs"
  by (induction xs arbitrary: i) (auto split: nat.splits)

lemma rfind_nth:
  "0 \<le> rfind s c \<Longrightarrow> nat (rfind s c) < length s \<and> s ! nat (rfind s c) = c"
proof (induction s)
  case Nil
  then show ?case by simp
next
  case (Cons x xs)
  show ?case
  proof (cases "0 \<le> rfind xs c")
    case True
    with Cons.IH have "nat (rfind xs c) < length xs" and "xs ! nat (rfind xs c) = c"
      by simp_all
    moreover have "nat (rfind xs c + 1) = Suc (nat (rfind xs c))" using True by simp
    ultimately show ?thesis using True by (simp add: Let_def)
  next
    case False
    with Cons.prems show ?thesis by (simp add: Let_def split: if_splits)
  qed
qed

lemma path_suffix_starts_with_dot:
  assumes "path_suffix p \<noteq> []"
  shows "hd (path_suffix p) = CHR ''.''"
proof -
  let ?name = "path_name p"
  let ?i = "rfind ?name CHR ''.''"
  from assms have c: "0 < ?i \<and> ?i < int (length ?name) - 1"
    and s: "path_suffix p = drop (nat ?i) ?name"
    by (auto simp: path_suffix_def Let_def split: if_splits)
  from c rfind_nth [of ?name "CHR ''.''"]
  have "nat ?i < length ?name" and "?name ! nat ?i = CHR ''.''" by simp_all
  then show ?thesis unfolding s by (simp add: hd_drop_conv_nth)
qed

lemma path_suffix_not_bmp: "path_suffix p \<noteq> ''bmp''"
  using path_suffix_starts_with_dot [of p] by auto

subsection \<open>The example inputs, evaluated\<close>

lemma Path_b_pdf: "Path ''tables/b.pdf'' = \<lparr>p_root = [], p_parts = [''tables'', ''b.pdf'']\<rparr>"
  by (simp add: Path_def splitroot_def)

lemma suffix_b_pdf: "path_suffix \<lparr>p_root = [], p_parts = [''tables'', ''b.pdf'']\<rparr> = ''.pdf''"
  by (simp add: path_suffix_def path_name_def)

lemma b64_b_pdf: "b64encode [37, 80, 68, 70] = ''JVBERg==''"
  by (simp add: b64_char_def b64_alphabet_def)

lemma load_b_pdf:
  "load_file \<lparr>p_root = [], p_parts = [''tables'', ''b.pdf'']\<rparr> example_world = (Inr ''JVBERg=='', example_world)"
proof -
  have "open_rb (cwd example_world) \<lparr>p_root = [], p_parts = [''tables'', ''b.pdf'']\<rparr> = Inr [37, 80, 68, 70]"
    by (simp add: open_rb_def example_world_def example_tree_def example_tree_out_def)
  moreover have "length (b64encode [37, 80, 68, 70]) \<le> MAX_SIZE"
    by (simp add: length_b64encode MAX_SIZE_def)
  ultimately show ?thesis using load_file_accept b64_b_pdf by metis
qed

lemma length_zeros: "length (zeros n) = n"
  by (simp add: zeros_def)

lemma example_mkdir: "mkdir_exist_ok example_tree OUTPUT = Inr example_tree"
  by (simp add: mkdir_exist_ok_def OUTPUT_eq example_tree_def example_tree_out_def)

lemma stem_b_pdf: "path_stem \<lparr>p_root = [], p_parts = [''tables'', ''b.pdf'']\<rparr> = ''b''"
  by (simp add: path_stem_def path_name_def)

lemma excel_b_pdf:
  "excel_path \<lparr>p_root = [], p_parts = [''tables'', ''b.pdf'']\<rparr> =
     Inr \<lparr>p_root = [], p_parts = [''output'', ''b.xlsx'']\<rparr>"
  by (simp add: excel_path_def stem_b_pdf OUTPUT_eq truediv_def Path_def splitroot_def
      with_suffix_def path_name_def path_suffix_def)

lemma example_calls_b_pdf:
  "calls (snd (collect_data example_client example_decoder [Path ''tables/b.pdf''] example_world))
     = [[(''ImageBase64'', JStr ''JVBERg==''), (''IsPdf'', JBool True)]]"
proof -
  define w1 where "w1 = (logging ''collect_data'' INFO Msg_collecting example_world)\<lparr>cwd := example_tree\<rparr>"
  define w2 where "w2 = logging ''collect_data'' INFO (Msg_processing ''b'') w1"
  have c: "collect_data example_client example_decoder [Path ''tables/b.pdf''] example_world =
      collect_data_loop example_client example_decoder [Path ''tables/b.pdf''] w1"
    by (simp add: collect_data_def Let_def w1_def logging_def example_world_def example_mkdir)
  have cw: "cwd w2 = example_tree" "calls w2 = []"
    by (simp_all add: w2_def w1_def logging_def example_world_def)
  have o: "open_rb (cwd w2) \<lparr>p_root = [], p_parts = [''tables'', ''b.pdf'']\<rparr> = Inr [37, 80, 68, 70]"
    by (simp add: cw open_rb_def example_tree_def example_tree_out_def)
  have le: "length (b64encode [37, 80, 68, 70]) \<le> MAX_SIZE"
    by (simp add: length_b64encode MAX_SIZE_def)
  have l: "load_file \<lparr>p_root = [], p_parts = [''tables'', ''b.pdf'']\<rparr> w2 = (Inr ''JVBERg=='', w2)"
    by (rule load_file_accept [OF o le, unfolded b64_b_pdf])
  have n: "''JVBERg=='' \<noteq> []" by simp
  have r: "request_params ''JVBERg=='' \<lparr>p_root = [], p_parts = [''tables'', ''b.pdf'']\<rparr> None =
      [(''ImageBase64'', JStr ''JVBERg==''), (''IsPdf'', JBool True)]"
    by (simp add: request_params_def suffix_b_pdf)
  have g: "calls (snd (get_ocr_result example_client example_decoder
             \<lparr>p_root = [], p_parts = [''tables'', ''b.pdf'']\<rparr> None w2)) =
           [[(''ImageBase64'', JStr ''JVBERg==''), (''IsPdf'', JBool True)]]"
    using calls_get_ocr_result_submitted [OF l n, of example_client example_decoder None]
    by (simp add: r cw)
  obtain res w3 where g3: "get_ocr_result example_client example_decoder
             \<lparr>p_root = [], p_parts = [''tables'', ''b.pdf'']\<rparr> None w2 = (res, w3)"
    by (cases "get_ocr_result example_client example_decoder
             \<lparr>p_root = [], p_parts = [''tables'', ''b.pdf'']\<rparr> None w2")
  with g have c3: "calls w3 = [[(''ImageBase64'', JStr ''JVBERg==''), (''IsPdf'', JBool True)]]"
    by simp
  have final: "calls (snd (collect_data_loop example_client example_decoder
            [\<lparr>p_root = [], p_parts = [''tables'', ''b.pdf'']\<rparr>] w1)) =
        [[(''ImageBase64'', JStr ''JVBERg==''), (''IsPdf'', JBool True)]]"
    using g3 c3
    by (simp add: Let_def stem_b_pdf w2_def [symmetric] excel_b_pdf logging_fields
        split: sum.splits)
  show ?thesis unfolding Path_b_pdf c [unfolded Path_b_pdf] by (rule final)
qed

lemma big_png_open:
  "open_rb (cwd (boundary_world n)) (Path ''tables/big.png'') = Inr (zeros n)"
  by (simp add: boundary_world_def open_rb_def Path_def splitroot_def)

lemma length_b64_zeros_at: "length (b64encode (zeros 5505024)) = MAX_SIZE"
  by (simp add: length_b64encode length_zeros MAX_SIZE_def)

lemma length_b64_zeros_over: "length (b64encode (zeros 5505025)) = 7340036"
  by (simp add: length_b64encode length_zeros)

lemma open_b_pdf:
  "open_rb (cwd example_world) \<lparr>p_root = [], p_parts = [''tables'', ''b.pdf'']\<rparr> = Inr [37, 80, 68, 70]"
  by (simp add: open_rb_def example_world_def example_tree_def example_tree_out_def)

lemma write_b_xlsx:
  "open_wb (cwd example_world) \<lparr>p_root = [], p_parts = [''output'', ''b.xlsx'']\<rparr> data =
     Inr (example_tree_out [(''b.xlsx'', File data)])"
  by (simp add: open_wb_def example_world_def example_tree_def example_tree_out_def)

lemma request_b_pdf:
  "request_params ''JVBERg=='' \<lparr>p_root = [], p_parts = [''tables'', ''b.pdf'']\<rparr> None =
     [(''ImageBase64'', JStr ''JVBERg==''), (''IsPdf'', JBool True)]"
  by (simp add: request_params_def suffix_b_pdf)

lemma open_empty_jpg:
  "open_rb (cwd example_world) \<lparr>p_root = [], p_parts = [''tables'', ''empty.jpg'']\<rparr> = Inr []"
  by (simp add: open_rb_def example_world_def example_tree_def example_tree_out_def)

lemma excel_empty_jpg:
  "excel_path \<lparr>p_root = [], p_parts = [''tables'', ''empty.jpg'']\<rparr> =
     Inr \<lparr>p_root = [], p_parts = [''output'', ''empty.xlsx'']\<rparr>"
  by (simp add: excel_path_def OUTPUT_eq truediv_def Path_def splitroot_def
      with_suffix_def path_name_def path_suffix_def path_stem_def)

lemma write_empty_xlsx:
  "open_wb (cwd example_world) \<lparr>p_root = [], p_parts = [''output'', ''empty.xlsx'']\<rparr> data =
     Inr (example_tree_out [(''empty.xlsx'', File data)])"
  by (simp add: open_wb_def example_world_def example_tree_def example_tree_out_def)

lemma Path_a_png: "Path ''tables/a.png'' = \<lparr>p_root = [], p_parts = [''tables'', ''a.png'']\<rparr>"
  by (simp add: Path_def splitroot_def)

lemma Path_sub_a_jpeg:
  "Path ''tables/sub/a.jpeg'' = \<lparr>p_root = [], p_parts = [''tables'', ''sub'', ''a.jpeg'']\<rparr>"
  by (simp add: Path_def splitroot_def)

lemma excel_a_png:
  "excel_path \<lparr>p_root = [], p_parts = [''tables'', ''a.png'']\<rparr> =
     Inr \<lparr>p_root = [], p_parts = [''output'', ''a.xlsx'']\<rparr>"
  by (simp add: excel_path_def OUTPUT_eq truediv_def Path_def splitroot_def
      with_suffix_def path_name_def path_suffix_def path_stem_def)

lemma excel_sub_a_jpeg:
  "excel_path \<lparr>p_root = [], p_parts = [''tables'', ''sub'', ''a.jpeg'']\<rparr> =
     Inr \<lparr>p_root = [], p_parts = [''output'', ''a.xlsx'']\<rparr>"
  by (simp add: excel_path_def OUTPUT_eq truediv_def Path_def splitroot_def
      with_suffix_def path_name_def path_suffix_def path_stem_def)

lemma example_walk:
  "os_walk ''tables''
     (Dir [(''a.png'', File [1, 2]),
           (''b.pdf'', File [37, 80, 68, 70]),
           (''c.txt'', File [104, 105]),
           (''empty.jpg'', File []),
           (''sub'', Dir [(''a.jpeg'', File [3]), (''scan.bmp'', File [66, 77])])]) =
     [(''tables'', [''sub''], [''a.png'', ''b.pdf'', ''c.txt'', ''empty.jpg'']),
      (''tables/sub'', [], [''a.jpeg'', ''scan.bmp''])]"
  by (simp add: os_path_join_def)

lemma example_suffixes:
  "path_suffix \<lparr>p_root = [], p_parts = [''tables'', ''a.png'']\<rparr> = ''.png''"
  "path_suffix \<lparr>p_root = [], p_parts = [''tables'', ''c.txt'']\<rparr> = ''.txt''"
  "path_suffix \<lparr>p_root = [], p_parts = [''tables'', ''empty.jpg'']\<rparr> = ''.jpg''"
  "path_suffix \<lparr>p_root = [], p_parts = [''tables'', ''sub'', ''a.jpeg'']\<rparr> = ''.jpeg''"
  "path_suffix \<lparr>p_root = [], p_parts = [''tables'', ''sub'', ''scan.bmp'']\<rparr> = ''.bmp''"
  by (simp_all add: path_suffix_def path_name_def)

lemma Path_empty_jpg:
  "Path ''tables/empty.jpg'' = \<lparr>p_root = [], p_parts = [''tables'', ''empty.jpg'']\<rparr>"
  by (simp add: Path_def splitroot_def)

lemma Path_scan_bmp:
  "Path ''tables/sub/scan.bmp'' = \<lparr>p_root = [], p_parts = [''tables'', ''sub'', ''scan.bmp'']\<rparr>"
  by (simp add: Path_def splitroot_def)

lemma example_files:
  "get_all_files example_tree =
     [Path ''tables/a.png'', Path ''tables/b.pdf'', Path ''tables/empty.jpg'',
      Path ''tables/sub/a.jpeg'']"
proof -
  have r: "resolve example_tree (p_parts IMAGE_DIR) =
     Some (Dir [(''a.png'', File [1, 2]),
           (''b.pdf'', File [37, 80, 68, 70]),
           (''c.txt'', File [104, 105]),
           (''empty.jpg'', File []),
           (''sub'', Dir [(''a.jpeg'', File [3]), (''scan.bmp'', File [66, 77])])])"
    by (simp add: IMAGE_DIR_def Path_tables example_tree_def example_tree_out_def)
  show ?thesis
    unfolding get_all_files_def r option.case example_walk
      Path_a_png Path_b_pdf Path_empty_jpg Path_sub_a_jpeg
    by (simp add: Path_tables Path_tables_sub truediv_plain example_suffixes suffix_b_pdf
        SUPPORT_SUFFIX_def)
qed

lemma example_scan_bmp:
  "open_rb example_tree (Path ''tables/sub/scan.bmp'') = Inr [66, 77]"
  "path_suffix (Path ''tables/sub/scan.bmp'') = ''.bmp''"
  by (simp_all add: Path_scan_bmp example_suffixes open_rb_def example_tree_def
      example_tree_out_def)

lemma example_provider_ok: "provider_ok example_client example_decoder"
  by (simp add: provider_ok_def example_client_def example_decoder_def)

lemma example_open:
  "open_rb example_tree \<lparr>p_root = [], p_parts = [''tables'', ''a.png'']\<rparr> = Inr [1, 2]"
  "open_rb example_tree \<lparr>p_root = [], p_parts = [''tables'', ''b.pdf'']\<rparr> = Inr [37, 80, 68, 70]"
  by (simp_all add: open_rb_def example_tree_def example_tree_out_def)

lemma example_writable:
  "\<not> isl (open_wb example_tree \<lparr>p_root = [], p_parts = [''output'', ''a.xlsx'']\<rparr> [])"
  "\<not> isl (open_wb example_tree \<lparr>p_root = [], p_parts = [''output'', ''b.xlsx'']\<rparr> [])"
  by (simp_all add: open_wb_def example_tree_def example_tree_out_def)

lemma example_batch_ready:
  "batch_ready (cwd example_world) [Path ''tables/a.png'', Path ''tables/b.pdf'']"
  by (simp add: batch_ready_def example_world_def example_mkdir readable_def writable_def
      Path_a_png Path_b_pdf example_open example_writable excel_a_png excel_b_pdf)

lemma example_discovered:
  "set [Path ''tables/a.png'', Path ''tables/b.pdf''] \<subseteq> set (get_all_files example_tree)"
  unfolding example_files by simp

lemma b64_a_png: "b64encode [1, 2] = ''AQI=''"
  by (simp add: b64_char_def b64_alphabet_def)

lemma request_a_png:
  "request_params ''AQI='' \<lparr>p_root = [], p_parts = [''tables'', ''a.png'']\<rparr> None =
     [(''ImageBase64'', JStr ''AQI='')]"
  by (simp add: request_params_def example_suffixes)

lemma example_submitted:
  "submitted \<lparr>p_root = [], p_parts = [''tables'', ''a.png'']\<rparr> [1, 2] =
     [[(''ImageBase64'', JStr ''AQI='')]]"
  "submitted \<lparr>p_root = [], p_parts = [''tables'', ''b.pdf'']\<rparr> [37, 80, 68, 70] =
     [[(''ImageBase64'', JStr ''JVBERg==''), (''IsPdf'', JBool True)]]"
  unfolding submitted_def b64_a_png b64_b_pdf Let_def request_a_png request_b_pdf
  by (simp_all add: MAX_SIZE_def)

lemma example_raw:
  "raw_of example_tree \<lparr>p_root = [], p_parts = [''tables'', ''a.png'']\<rparr> = [1, 2]"
  "raw_of example_tree \<lparr>p_root = [], p_parts = [''tables'', ''b.pdf'']\<rparr> = [37, 80, 68, 70]"
  by (simp_all add: raw_of_def example_open)

lemma example_artifacts:
  "artifacts example_client example_decoder (raw_of (cwd example_world)) (calls example_world)
     [Path ''tables/a.png'', Path ''tables/b.pdf''] = [[120, 108, 115, 120], []]"
  unfolding Path_a_png Path_b_pdf
  by (simp add: example_world_def example_raw artifact_def example_submitted
      example_client_def example_decoder_def)

lemma steady_provider_ok: "provider_ok steady_client example_decoder"
  by (simp add: provider_ok_def steady_client_def example_decoder_def)

lemma steady_artifacts:
  "artifacts steady_client example_decoder (raw_of (cwd example_world)) (calls example_world)
     [Path ''tables/a.png'', Path ''tables/b.pdf''] = [[120, 108, 115, 120], [120, 108, 115, 120]]"
  unfolding Path_a_png Path_b_pdf
  by (simp add: example_world_def example_raw artifact_def example_submitted
      steady_client_def example_decoder_def)

lemma steady_written:
  "written (snd (collect_data steady_client example_decoder
          [Path ''tables/a.png'', Path ''tables/b.pdf''] example_world)) =
     [(\<lparr>p_root = [], p_parts = [''output'', ''a.xlsx'']\<rparr>, [120, 108, 115, 120]),
      (\<lparr>p_root = [], p_parts = [''output'', ''b.xlsx'']\<rparr>, [120, 108, 115, 120])]"
proof -
  from collect_data_artifacts [OF steady_provider_ok example_batch_ready example_discovered]
  obtain w' new where
    run: "collect_data steady_client example_decoder
            [Path ''tables/a.png'', Path ''tables/b.pdf''] example_world = (Inr (), w')"
    and wr: "written w' = written example_world @ new"
    and paths: "map (Inr \<circ> fst) new =
        (map excel_path [Path ''tables/a.png'', Path ''tables/b.pdf''] :: (exn + path) list)"
    and arts: "map snd new = artifacts steady_client example_decoder
        (raw_of (cwd example_world)) (calls example_world)
        [Path ''tables/a.png'', Path ''tables/b.pdf'']"
    by blast
  have "map (Inr \<circ> fst) new =
      (map (Inr \<circ> fst) [(\<lparr>p_root = [], p_parts = [''output'', ''a.xlsx'']\<rparr>, [120, 108, 115, 120]),
                       (\<lparr>p_root = [], p_parts = [''output'', ''b.xlsx'']\<rparr>, [120, 108, 115, 120])]
        :: (exn + path) list)"
    unfolding paths by (simp add: Path_a_png Path_b_pdf excel_a_png excel_b_pdf)
  moreover have "map snd new =
      map snd [(\<lparr>p_root = [], p_parts = [''output'', ''a.xlsx'']\<rparr>, [120, 108, 115, 120]),
               (\<lparr>p_root = [], p_parts = [''output'', ''b.xlsx'']\<rparr>, [120, 108, 115, 120])]"
    unfolding arts steady_artifacts by simp
  ultimately have "new =
      [(\<lparr>p_root = [], p_parts = [''output'', ''a.xlsx'']\<rparr>, [120, 108, 115, 120]),
       (\<lparr>p_root = [], p_parts = [''output'', ''b.xlsx'']\<rparr>, [120, 108, 115, 120])]"
    by (rule pairs_eqI)
  then show ?thesis unfolding run using wr by (simp add: example_world_def)
qed

lemma steady_calls_before_b:
  "calls (snd (collect_data steady_client example_decoder [Path ''tables/a.png''] example_world))
     = [[(''ImageBase64'', JStr ''AQI='')]]"
proof -
  have ready: "batch_ready (cwd example_world) [Path ''tables/a.png'']"
    by (rule batch_ready_subset [OF example_batch_ready]) simp
  have disc: "set [Path ''tables/a.png''] \<subseteq> set (get_all_files example_tree)"
    unfolding example_files by simp
  from collect_data_artifacts [OF steady_provider_ok ready disc]
  have "calls (snd (collect_data steady_client example_decoder [Path ''tables/a.png''] example_world))
     = calls example_world @
       concat (map (\<lambda>f. submitted f (raw_of (cwd example_world) f)) [Path ''tables/a.png''])"
    by auto
  then show ?thesis
    unfolding Path_a_png by (simp add: example_world_def example_raw example_submitted)
qed

subsection \<open>The claims\<close>

text \<open>
  Claim C1. The allow-list of the source holds \<^verbatim>\<open>'bmp'\<close> without its dot, and no path
  has the suffix \<^verbatim>\<open>'bmp'\<close>: a suffix is empty or starts with a dot. In the example tree
  the regular file
  \<^verbatim>\<open>tables/sub/scan.bmp\<close> exists and is readable, yet \<open>get_all_files\<close> returns the four
  files with the suffixes \<^verbatim>\<open>.png\<close>, \<^verbatim>\<open>.pdf\<close>, \<^verbatim>\<open>.jpg\<close> and \<^verbatim>\<open>.jpeg\<close> only, at both
  depths; the \<^verbatim>\<open>.bmp\<close> file is skipped like the \<^verbatim>\<open>.txt\<close> file.
\<close>

theorem C1_bmp_file_not_discovered:
  "open_rb example_tree (Path ''tables/sub/scan.bmp'') = Inr [66, 77]
   \<and> path_suffix (Path ''tables/sub/scan.bmp'') = ''.bmp''
   \<and> get_all_files example_tree =
       [Path ''tables/a.png'', Path ''tables/b.pdf'', Path ''tables/empty.jpg'',
        Path ''tables/sub/a.jpeg'']
   \<and> (\<forall>p. path_suffix p \<noteq> ''bmp'')"
  using example_files example_scan_bmp path_suffix_not_bmp by simp

text \<open>
  Claim C2, as amended. For discovered files \<open>f\<close> and \<open>g\<close> with plain stems, the output
  path of \<open>f\<close> is its stem followed by \<^verbatim>\<open>.xlsx\<close> inside \<^verbatim>\<open>output\<close>; it is the path derived
  for the bare name of \<open>f\<close>, whatever directory \<open>f\<close> lies in; and the paths of \<open>f\<close> and \<open>g\<close>
  are equal exactly when their stems are equal.
\<close>

theorem C2_output_path_from_stem:
  assumes "f \<in> set (get_all_files t)" and "g \<in> set (get_all_files t)"
    and "plain_stem f" and "plain_stem g"
  shows "excel_path f = Inr \<lparr>p_root = [], p_parts = [''output'', path_stem f @ ''.xlsx'']\<rparr>
   \<and> excel_path f = excel_path \<lparr>p_root = [], p_parts = [path_name f]\<rparr>
   \<and> (excel_path f = excel_path g \<longleftrightarrow> path_stem f = path_stem g)"
proof -
  have ef: "excel_path f = Inr \<lparr>p_root = [], p_parts = [''output'', path_stem f @ ''.xlsx'']\<rparr>"
    by (rule excel_path_plain [OF discovered_stem [OF assms(1)] assms(3)])
  have eg: "excel_path g = Inr \<lparr>p_root = [], p_parts = [''output'', path_stem g @ ''.xlsx'']\<rparr>"
    by (rule excel_path_plain [OF discovered_stem [OF assms(2)] assms(4)])
  show ?thesis
  proof (intro conjI)
    show "excel_path f = Inr \<lparr>p_root = [], p_parts = [''output'', path_stem f @ ''.xlsx'']\<rparr>"
      by (rule ef)
    show "excel_path f = excel_path \<lparr>p_root = [], p_parts = [path_name f]\<rparr>"
      by (rule excel_path_name_only)
    show "excel_path f = excel_path g \<longleftrightarrow> path_stem f = path_stem g"
      unfolding ef eg by simp
  qed
qed

text \<open>
  Claim C2 as stated fails: \<^verbatim>\<open>tables/a.png\<close> and \<^verbatim>\<open>tables/sub/a.jpeg\<close> are two distinct
  discovered files of the example tree, and both are given the output path
  \<^verbatim>\<open>output/a.xlsx\<close>.
\<close>

theorem C2_distinct_files_same_output:
  "Path ''tables/a.png'' \<in> set (get_all_files example_tree)
   \<and> Path ''tables/sub/a.jpeg'' \<in> set (get_all_files example_tree)
   \<and> Path ''tables/a.png'' \<noteq> Path ''tables/sub/a.jpeg''
   \<and> excel_path (Path ''tables/a.png'') = excel_path (Path ''tables/sub/a.jpeg'')"
  unfolding example_files
  by (simp add: Path_a_png Path_sub_a_jpeg excel_a_png excel_sub_a_jpeg Path_b_pdf)

theorem C2_output_path_from_stem_witness:
  "excel_path (Path ''tables/a.png'') = Inr (Path ''output/a.xlsx'')
   \<and> path_stem (Path ''tables/a.png'') = path_stem (Path ''tables/sub/a.jpeg'')
   \<and> excel_path (Path ''tables/a.png'') = excel_path (Path ''tables/sub/a.jpeg'')
   \<and> path_stem (Path ''tables/b.pdf'') \<noteq> path_stem (Path ''tables/a.png'')
   \<and> excel_path (Path ''tables/b.pdf'') \<noteq> excel_path (Path ''tables/a.png'')"
proof -
  have a: "Path ''tables/a.png'' \<in> set (get_all_files example_tree)"
    and j: "Path ''tables/sub/a.jpeg'' \<in> set (get_all_files example_tree)"
    and b: "Path ''tables/b.pdf'' \<in> set (get_all_files example_tree)"
    unfolding example_files by simp_all
  have pa: "plain_stem (Path ''tables/a.png'')"
    and pj: "plain_stem (Path ''tables/sub/a.jpeg'')"
    and pb: "plain_stem (Path ''tables/b.pdf'')"
    by (simp_all add: plain_stem_def Path_a_png Path_sub_a_jpeg Path_b_pdf path_stem_def
        path_suffix_def path_name_def)
  have sa: "path_stem (Path ''tables/a.png'') = ''a''"
    and sj: "path_stem (Path ''tables/sub/a.jpeg'') = ''a''"
    and sb: "path_stem (Path ''tables/b.pdf'') = ''b''"
    by (simp_all add: Path_a_png Path_sub_a_jpeg Path_b_pdf path_stem_def path_name_def)
  have out: "Path ''output/a.xlsx'' = \<lparr>p_root = [], p_parts = [''output'', ''a.xlsx'']\<rparr>"
    by (simp add: Path_def splitroot_def)
  note t1 = C2_output_path_from_stem [OF a j pa pj]
  note t2 = C2_output_path_from_stem [OF b a pb pa]
  have e1: "excel_path (Path ''tables/a.png'') = Inr (Path ''output/a.xlsx'')"
    using t1 [THEN conjunct1] unfolding sa out by simp
  have e2: "excel_path (Path ''tables/a.png'') = excel_path (Path ''tables/sub/a.jpeg'')"
    using t1 [THEN conjunct2, THEN conjunct2] unfolding sa sj by simp
  have e3: "excel_path (Path ''tables/b.pdf'') \<noteq> excel_path (Path ''tables/a.png'')"
    using t2 [THEN conjunct2, THEN conjunct2] unfolding sa sb by simp
  show ?thesis
    using e1 e2 e3 unfolding sa sj sb by simp
qed

text \<open>
  Claim C3. For a readable file whose base64 text has exactly \<open>MAX_SIZE\<close> characters,
  \<open>load_file\<close> returns the text and \<open>get_ocr_result\<close> sends one request with it. For a file
  whose base64 text is longer, \<open>load_file\<close> logs an error that carries the size divided by
  \<^verbatim>\<open>1024**2\<close> and returns the empty text; \<open>get_ocr_result\<close> then returns empty bytes
  without an exception and sends nothing.
\<close>

theorem C3_size_boundary:
  assumes "open_rb (cwd w) f = Inr raw"
  shows "(length (b64encode raw) = MAX_SIZE \<longrightarrow>
            load_file f w = (Inr (b64encode raw), w)
            \<and> calls (snd (get_ocr_result client b64decode f pdf_page w)) =
                calls w @ [request_params (b64encode raw) f pdf_page])
       \<and> (MAX_SIZE < length (b64encode raw) \<longrightarrow>
            load_file f w =
              (Inr [], logging ''_load_file'' ERROR
                 (Msg_too_large 7 (of_nat (length (b64encode raw)) / 1024 ^ 2)) w)
            \<and> get_ocr_result client b64decode f pdf_page w =
              (Inr [], logging ''_load_file'' ERROR
                 (Msg_too_large 7 (of_nat (length (b64encode raw)) / 1024 ^ 2)) w)
            \<and> calls (snd (get_ocr_result client b64decode f pdf_page w)) = calls w)"
proof (intro conjI impI)
  assume eq: "length (b64encode raw) = MAX_SIZE"
  then have le: "length (b64encode raw) \<le> MAX_SIZE" by simp
  show l: "load_file f w = (Inr (b64encode raw), w)"
    by (rule load_file_accept [OF assms le])
  have "b64encode raw \<noteq> []" using eq by (auto simp: MAX_SIZE_def)
  from calls_get_ocr_result_submitted [OF l this]
  show "calls (snd (get_ocr_result client b64decode f pdf_page w)) =
          calls w @ [request_params (b64encode raw) f pdf_page]" .
next
  assume gt: "MAX_SIZE < length (b64encode raw)"
  show l: "load_file f w =
      (Inr [], logging ''_load_file'' ERROR
         (Msg_too_large 7 (of_nat (length (b64encode raw)) / 1024 ^ 2)) w)"
    by (rule load_file_reject [OF assms gt])
  from get_ocr_result_no_payload [OF l]
  show g: "get_ocr_result client b64decode f pdf_page w =
      (Inr [], logging ''_load_file'' ERROR
         (Msg_too_large 7 (of_nat (length (b64encode raw)) / 1024 ^ 2)) w)" .
  show "calls (snd (get_ocr_result client b64decode f pdf_page w)) = calls w"
    by (simp add: g logging_def)
qed

theorem C3_size_boundary_witness:
  "load_file (Path ''tables/big.png'') (boundary_world 5505024) =
     (Inr (b64encode (zeros 5505024)), boundary_world 5505024)
   \<and> calls (snd (get_ocr_result example_client example_decoder (Path ''tables/big.png'') None
         (boundary_world 5505024))) =
       [request_params (b64encode (zeros 5505024)) (Path ''tables/big.png'') None]
   \<and> get_ocr_result example_client example_decoder (Path ''tables/big.png'') None
         (boundary_world 5505025) =
       (Inr [], logging ''_load_file'' ERROR (Msg_too_large 7 (7340036 / 1024 ^ 2))
                  (boundary_world 5505025))"
proof -
  have c0: "calls (boundary_world 5505024) = []" by (simp add: boundary_world_def)
  have gt: "MAX_SIZE < length (b64encode (zeros 5505025))"
    by (simp add: length_b64_zeros_over MAX_SIZE_def)
  show ?thesis
    using C3_size_boundary [OF big_png_open [of 5505024], of example_client example_decoder None]
      C3_size_boundary [OF big_png_open [of 5505025], of example_client example_decoder None]
      length_b64_zeros_at gt c0
    by (simp add: length_b64_zeros_over)
qed

text \<open>
  Claim C4. When a file is read, its payload is accepted and the client answers the request
  by raising \<^verbatim>\<open>TencentCloudSDKException\<close>, \<open>get_ocr_result\<close> returns empty bytes and no
  exception: the request is recorded as sent and the exception is logged at level
  \<^verbatim>\<open>ERROR\<close>. In the batch, where the output file can be written, the loop writes the
  empty bytes for that file and goes on with the remaining files.
\<close>

theorem C4_sdk_exception_absorbed:
  assumes "open_rb (cwd w) f = Inr raw" and "raw \<noteq> []"
    and "length (b64encode raw) \<le> MAX_SIZE"
    and "client (calls w) (request_params (b64encode raw) f pdf_page) =
           Raises (TencentCloudSDKException m)"
  shows "get_ocr_result client b64decode f pdf_page w =
     (Inr [],
      w\<lparr>logged := logged w @
            [(''get_ocr_result'', DEBUG,
              Msg_extra_params (filter (\<lambda>(k, v). k \<noteq> ''ImageBase64'')
                (request_params (b64encode raw) f pdf_page))),
             (''get_ocr_result'', ERROR, Msg_exception (TencentCloudSDKException m))],
          calls := calls w @ [request_params (b64encode raw) f pdf_page]\<rparr>)
   \<and> (pdf_page = None \<longrightarrow> excel_path f = Inr excel \<longrightarrow> open_wb (cwd w) excel [] = Inr t \<longrightarrow>
        collect_data_loop client b64decode (f # fs) w =
        collect_data_loop client b64decode fs
          (w\<lparr>cwd := t,
              logged := logged w @
                [(''collect_data'', INFO, Msg_processing (path_stem f)),
                 (''get_ocr_result'', DEBUG,
                  Msg_extra_params (filter (\<lambda>(k, v). k \<noteq> ''ImageBase64'')
                    (request_params (b64encode raw) f None))),
                 (''get_ocr_result'', ERROR, Msg_exception (TencentCloudSDKException m)),
                 (''collect_data'', INFO, Msg_written (path_stem f))],
              calls := calls w @ [request_params (b64encode raw) f None],
              written := written w @ [(excel, [])]\<rparr>))"
proof -
  have ne: "b64encode raw \<noteq> []" using assms(2) by (simp add: b64encode_Nil_iff)
  have gen: "get_ocr_result client b64decode f pdf_page w' =
     (Inr [],
      w'\<lparr>logged := logged w' @
            [(''get_ocr_result'', DEBUG,
              Msg_extra_params (filter (\<lambda>(k, v). k \<noteq> ''ImageBase64'')
                (request_params (b64encode raw) f pdf_page))),
             (''get_ocr_result'', ERROR, Msg_exception (TencentCloudSDKException m))],
          calls := calls w' @ [request_params (b64encode raw) f pdf_page]\<rparr>)"
    if "cwd w' = cwd w" and "calls w' = calls w" for w'
  proof -
    have l: "load_file f w' = (Inr (b64encode raw), w')"
      using load_file_accept [of w' f raw] assms(1,3) that by simp
    show ?thesis
      using get_ocr_result_sdk_exception [OF l ne, of client pdf_page m b64decode] assms(4) that
      by simp
  qed
  show ?thesis
  proof (intro conjI impI)
    show "get_ocr_result client b64decode f pdf_page w =
     (Inr [],
      w\<lparr>logged := logged w @
            [(''get_ocr_result'', DEBUG,
              Msg_extra_params (filter (\<lambda>(k, v). k \<noteq> ''ImageBase64'')
                (request_params (b64encode raw) f pdf_page))),
             (''get_ocr_result'', ERROR, Msg_exception (TencentCloudSDKException m))],
          calls := calls w @ [request_params (b64encode raw) f pdf_page]\<rparr>)"
      by (rule gen) simp_all
  next
    assume p: "pdf_page = None" and e: "excel_path f = Inr excel"
      and o: "open_wb (cwd w) excel [] = Inr t"
    define w1 where "w1 = logging ''collect_data'' INFO (Msg_processing (path_stem f)) w"
    have g: "get_ocr_result client b64decode f None w1 =
       (Inr [],
        w1\<lparr>logged := logged w1 @
            [(''get_ocr_result'', DEBUG,
              Msg_extra_params (filter (\<lambda>(k, v). k \<noteq> ''ImageBase64'')
                (request_params (b64encode raw) f None))),
             (''get_ocr_result'', ERROR, Msg_exception (TencentCloudSDKException m))],
          calls := calls w1 @ [request_params (b64encode raw) f None]\<rparr>)"
      using gen [of w1] p by (simp add: w1_def logging_fields)
    have o': "open_wb (cwd (w1\<lparr>logged := logged w1 @
            [(''get_ocr_result'', DEBUG,
              Msg_extra_params (filter (\<lambda>(k, v). k \<noteq> ''ImageBase64'')
                (request_params (b64encode raw) f None))),
             (''get_ocr_result'', ERROR, Msg_exception (TencentCloudSDKException m))],
          calls := calls w1 @ [request_params (b64encode raw) f None]\<rparr>)) excel [] = Inr t"
      using o by (simp add: w1_def logging_fields)
    show "collect_data_loop client b64decode (f # fs) w =
        collect_data_loop client b64decode fs
          (w\<lparr>cwd := t,
              logged := logged w @
                [(''collect_data'', INFO, Msg_processing (path_stem f)),
                 (''get_ocr_result'', DEBUG,
                  Msg_extra_params (filter (\<lambda>(k, v). k \<noteq> ''ImageBase64'')
                    (request_params (b64encode raw) f None))),
                 (''get_ocr_result'', ERROR, Msg_exception (TencentCloudSDKException m)),
                 (''collect_data'', INFO, Msg_written (path_stem f))],
              calls := calls w @ [request_params (b64encode raw) f None],
              written := written w @ [(excel, [])]\<rparr>)"
      unfolding collect_data_loop_step [OF g [unfolded w1_def] e o' [unfolded w1_def]]
      by (intro arg_cong [where f = "collect_data_loop client b64decode fs"] world.equality)
        (simp_all add: logging_def)
  qed
qed

theorem C4_sdk_exception_absorbed_witness:
  "get_ocr_result example_client example_decoder (Path ''tables/b.pdf'') None example_world =
     (Inr [],
      example_world\<lparr>logged :=
          [(''get_ocr_result'', DEBUG, Msg_extra_params [(''IsPdf'', JBool True)]),
           (''get_ocr_result'', ERROR, Msg_exception (TencentCloudSDKException ''LimitExceeded''))],
        calls := [[(''ImageBase64'', JStr ''JVBERg==''), (''IsPdf'', JBool True)]]\<rparr>)
   \<and> collect_data_loop example_client example_decoder [Path ''tables/b.pdf''] example_world =
     (Inr (),
      \<lparr>cwd = example_tree_out [(''b.xlsx'', File [])],
       logged =
          [(''collect_data'', INFO, Msg_processing ''b''),
           (''get_ocr_result'', DEBUG, Msg_extra_params [(''IsPdf'', JBool True)]),
           (''get_ocr_result'', ERROR, Msg_exception (TencentCloudSDKException ''LimitExceeded'')),
           (''collect_data'', INFO, Msg_written ''b'')],
       calls = [[(''ImageBase64'', JStr ''JVBERg==''), (''IsPdf'', JBool True)]],
       written = [(Path ''output/b.xlsx'', [])]\<rparr>)"
proof -
  have ne: "[37, 80, 68, 70] \<noteq> ([] :: bytes)" by simp
  have le: "length (b64encode [37, 80, 68, 70]) \<le> MAX_SIZE"
    by (simp add: length_b64encode MAX_SIZE_def)
  have cl: "example_client (calls example_world)
      (request_params (b64encode [37, 80, 68, 70])
         \<lparr>p_root = [], p_parts = [''tables'', ''b.pdf'']\<rparr> None) =
      Raises (TencentCloudSDKException ''LimitExceeded'')"
    unfolding b64_b_pdf request_b_pdf by (simp add: example_client_def)
  have out: "Path ''output/b.xlsx'' = \<lparr>p_root = [], p_parts = [''output'', ''b.xlsx'']\<rparr>"
    by (simp add: Path_def splitroot_def)
  note th = C4_sdk_exception_absorbed [where client = example_client
        and excel = "\<lparr>p_root = [], p_parts = [''output'', ''b.xlsx'']\<rparr>"
        and t = "example_tree_out [(''b.xlsx'', File [])]" and fs = "[]"
        and b64decode = example_decoder and pdf_page = None,
      OF open_b_pdf ne le cl, unfolded b64_b_pdf request_b_pdf stem_b_pdf]
  show ?thesis
    unfolding Path_b_pdf out
    using th excel_b_pdf write_b_xlsx [of "[]"]
    by (simp add: example_world_def)
qed

text \<open>
  Claim C5. For a list of discovered files, a tree that is ready for them and a well behaved
  provider, \<open>collect_data\<close> ends without an exception and makes one write per file, in the
  order of the list: the path written is the output path of the file and the bytes are
  its artifact, which is what the recognition step returned (the decoded bytes of a
  response, the empty bytes after an encoding or remote failure). In the state reached,
  the output path of every file is a regular file.
\<close>

theorem C5_every_file_written:
  assumes "provider_ok client b64decode"
    and "batch_ready (cwd w) fs"
    and "set fs \<subseteq> set (get_all_files t0)"
  shows "\<exists>w' new. collect_data client b64decode fs w = (Inr (), w')
     \<and> written w' = written w @ new
     \<and> map (Inr \<circ> fst) new = map excel_path fs
     \<and> map snd new = artifacts client b64decode (raw_of (cwd w)) (calls w) fs
     \<and> (\<forall>f\<in>set fs. \<exists>p. excel_path f = Inr p \<and> readable (cwd w') p)"
  using collect_data_artifacts [OF assms] by blast

theorem C5_every_file_written_witness:
  "fst (collect_data example_client example_decoder
          [Path ''tables/a.png'', Path ''tables/b.pdf''] example_world) = Inr ()
   \<and> written (snd (collect_data example_client example_decoder
          [Path ''tables/a.png'', Path ''tables/b.pdf''] example_world)) =
       [(Path ''output/a.xlsx'', [120, 108, 115, 120]), (Path ''output/b.xlsx'', [])]"
proof -
  from C5_every_file_written [OF example_provider_ok example_batch_ready example_discovered]
  obtain w' new where
    run: "collect_data example_client example_decoder
            [Path ''tables/a.png'', Path ''tables/b.pdf''] example_world = (Inr (), w')"
    and wr: "written w' = written example_world @ new"
    and paths: "map (Inr \<circ> fst) new =
        (map excel_path [Path ''tables/a.png'', Path ''tables/b.pdf''] :: (exn + path) list)"
    and arts: "map snd new = artifacts example_client example_decoder
        (raw_of (cwd example_world)) (calls example_world)
        [Path ''tables/a.png'', Path ''tables/b.pdf'']"
    by blast
  have "map (Inr \<circ> fst) new =
      (map (Inr \<circ> fst) [(\<lparr>p_root = [], p_parts = [''output'', ''a.xlsx'']\<rparr>, [120, 108, 115, 120]),
                       (\<lparr>p_root = [], p_parts = [''output'', ''b.xlsx'']\<rparr>, [])] :: (exn + path) list)"
    unfolding paths by (simp add: Path_a_png Path_b_pdf excel_a_png excel_b_pdf)
  moreover have "map snd new =
      map snd [(\<lparr>p_root = [], p_parts = [''output'', ''a.xlsx'']\<rparr>, [120, 108, 115, 120]),
               (\<lparr>p_root = [], p_parts = [''output'', ''b.xlsx'']\<rparr>, [])]"
    unfolding arts example_artifacts by simp
  ultimately have new: "new =
      [(\<lparr>p_root = [], p_parts = [''output'', ''a.xlsx'']\<rparr>, [120, 108, 115, 120]),
       (\<lparr>p_root = [], p_parts = [''output'', ''b.xlsx'']\<rparr>, [])]"
    by (rule pairs_eqI)
  have out: "Path ''output/a.xlsx'' = \<lparr>p_root = [], p_parts = [''output'', ''a.xlsx'']\<rparr>"
    "Path ''output/b.xlsx'' = \<lparr>p_root = [], p_parts = [''output'', ''b.xlsx'']\<rparr>"
    by (simp_all add: Path_def splitroot_def)
  show ?thesis unfolding run out using wr new by (simp add: example_world_def)
qed

text \<open>
  Claim C6. When the payload of a file is accepted (the encoder returns a text that is not
  empty), \<open>get_ocr_result\<close> sends exactly one request, and that request carries
  \<^verbatim>\<open>IsPdf\<close> (set to true) if the suffix of the file is \<^verbatim>\<open>.pdf\<close> and has no such field for
  any other suffix.
\<close>

theorem C6_pdf_flag:
  assumes "load_file f w = (Inr content, w1)" and "content \<noteq> []"
  shows "calls (snd (get_ocr_result client b64decode f pdf_page w)) =
           calls w @ [request_params content f pdf_page]
         \<and> map_of (request_params content f pdf_page) ''IsPdf'' =
             (if path_suffix f = ''.pdf'' then Some (JBool True) else None)"
proof -
  have "calls w1 = calls w" using calls_load_file [of f w] assms(1) by simp
  then show ?thesis
    using calls_get_ocr_result_submitted [OF assms, of client b64decode pdf_page]
      map_of_request_params_IsPdf [of content f pdf_page] by simp
qed

theorem C6_pdf_flag_witness:
  "calls (snd (get_ocr_result example_client example_decoder (Path ''tables/b.pdf'') None example_world))
     = [[(''ImageBase64'', JStr ''JVBERg==''), (''IsPdf'', JBool True)]]
   \<and> map_of (request_params ''JVBERg=='' (Path ''tables/b.pdf'') None) ''IsPdf'' = Some (JBool True)"
proof -
  have l: "load_file (Path ''tables/b.pdf'') example_world = (Inr ''JVBERg=='', example_world)"
    by (simp add: Path_b_pdf load_b_pdf)
  have n: "''JVBERg=='' \<noteq> []" by simp
  show ?thesis
    using C6_pdf_flag [OF l n, of example_client example_decoder None]
    by (simp add: Path_b_pdf suffix_b_pdf request_params_def Let_def example_world_def)
qed

text \<open>
  Claim C7. When the payload of a file is accepted, the one request that \<open>get_ocr_result\<close>
  sends carries \<^verbatim>\<open>PdfPageNumber\<close> exactly when a page number was given and is not zero, with
  that number as its value; without a page number, or with zero, the field is absent.
\<close>

theorem C7_page_number_field:
  assumes "load_file f w = (Inr content, w1)" and "content \<noteq> []"
  shows "calls (snd (get_ocr_result client b64decode f pdf_page w)) =
           calls w @ [request_params content f pdf_page]
         \<and> map_of (request_params content f pdf_page) ''PdfPageNumber'' =
             (case pdf_page of None \<Rightarrow> None
              | Some n \<Rightarrow> if n \<noteq> 0 then Some (JInt n) else None)"
proof -
  have "calls w1 = calls w" using calls_load_file [of f w] assms(1) by simp
  then show ?thesis
    using calls_get_ocr_result_submitted [OF assms, of client b64decode pdf_page]
      map_of_request_params_page [of content f pdf_page] by simp
qed

theorem C7_page_number_field_witness:
  "calls (snd (get_ocr_result example_client example_decoder (Path ''tables/b.pdf'') (Some 2)
       example_world))
     = [[(''ImageBase64'', JStr ''JVBERg==''), (''IsPdf'', JBool True), (''PdfPageNumber'', JInt 2)]]
   \<and> map_of (request_params ''JVBERg=='' (Path ''tables/b.pdf'') (Some 2)) ''PdfPageNumber''
       = Some (JInt 2)
   \<and> map_of (request_params ''JVBERg=='' (Path ''tables/b.pdf'') (Some 0)) ''PdfPageNumber'' = None
   \<and> map_of (request_params ''JVBERg=='' (Path ''tables/b.pdf'') None) ''PdfPageNumber'' = None"
proof -
  have l: "load_file (Path ''tables/b.pdf'') example_world = (Inr ''JVBERg=='', example_world)"
    by (simp add: Path_b_pdf load_b_pdf)
  have n: "''JVBERg=='' \<noteq> []" by simp
  show ?thesis
    using C7_page_number_field [OF l n, of example_client example_decoder "Some 2"]
      C7_page_number_field [OF l n, of example_client example_decoder "Some 0"]
      C7_page_number_field [OF l n, of example_client example_decoder None]
    by (simp add: Path_b_pdf suffix_b_pdf request_params_def Let_def example_world_def)
qed

text \<open>
  Claim C8. Take a list of discovered files, a tree that is ready for them and a well behaved
  provider \<open>c1\<close>; let file \<open>B\<close> at position \<open>i\<close> have an accepted payload, and let \<open>c2\<close>
  answer like \<open>c1\<close> except that the call made for \<open>B\<close> (its request, after the requests
  sent for the files before it) fails. Then both runs of \<open>collect_data\<close> end without an
  exception and make one write per file, and the writes of the second run are those of the
  first with the entry of \<open>B\<close> replaced by its output path and the empty bytes: every
  other file is written with the same path and the same bytes in both runs.
\<close>

theorem C8_failure_of_one_file_isolated:
  assumes "provider_ok c1 b64decode"
    and "batch_ready (cwd w) fs"
    and "set fs \<subseteq> set (get_all_files t0)"
    and "i < length fs"
    and "open_rb (cwd w) (fs ! i) = Inr raw" and "raw \<noteq> []"
    and "length (b64encode raw) \<le> MAX_SIZE"
    and "hB = calls (snd (collect_data c1 b64decode (take i fs) w))"
    and "qB = request_params (b64encode raw) (fs ! i) None"
    and "c2 = fail_at c1 hB qB m"
  shows "\<exists>w1 w2 p. collect_data c1 b64decode fs w = (Inr (), w1)
     \<and> collect_data c2 b64decode fs w = (Inr (), w2)
     \<and> excel_path (fs ! i) = Inr p
     \<and> length (written w1) = length (written w) + length fs
     \<and> written w2 = (written w1)[length (written w) + i := (p, [])]"
proof -
  let ?raw = "raw_of (cwd w)"
  let ?sub = "\<lambda>f. submitted f (?raw f)"
  have ok2: "provider_ok c2 b64decode"
    unfolding assms(10) by (rule provider_ok_fail_at [OF assms(1)])
  have "?raw (fs ! i) = raw" using assms(5) by (simp add: raw_of_def)
  then have sub: "?sub (fs ! i) = [qB]"
    using submitted_accepted [OF assms(6,7)] assms(9) by simp
  have "set (take i fs) \<subseteq> set fs" by (rule set_take_subset)
  then have ready0: "batch_ready (cwd w) (take i fs)"
    and disc0: "set (take i fs) \<subseteq> set (get_all_files t0)"
    using batch_ready_subset [OF assms(2)] assms(3) by auto
  from collect_data_artifacts [OF assms(1) ready0 disc0] assms(8)
  have hB: "hB = calls w @ concat (map ?sub (take i fs))" by auto
  from collect_data_artifacts [OF assms(1,2,3)] obtain w1 new1 where
    run1: "collect_data c1 b64decode fs w = (Inr (), w1)"
    and wr1: "written w1 = written w @ new1"
    and paths1: "map (Inr \<circ> fst) new1 = map excel_path fs"
    and arts1: "map snd new1 = artifacts c1 b64decode ?raw (calls w) fs"
    by blast
  from collect_data_artifacts [OF ok2 assms(2,3)] obtain w2 new2 where
    run2: "collect_data c2 b64decode fs w = (Inr (), w2)"
    and wr2: "written w2 = written w @ new2"
    and paths2: "map (Inr \<circ> fst) new2 = map excel_path fs"
    and arts2: "map snd new2 = artifacts c2 b64decode ?raw (calls w) fs"
    by blast
  have agree: "\<forall>h' q. (h', q) \<noteq> (hB, qB) \<longrightarrow> c2 h' q = c1 h' q"
    and fail: "c2 hB qB = Raises (TencentCloudSDKException m)"
    by (auto simp: assms(10) fail_at_def)
  note upd = artifacts_failure_at [OF assms(4) sub hB agree fail, of b64decode]
  have len1: "length new1 = length fs"
    using arg_cong [OF paths1, of length] by simp
  define p where "p = fst (new1 ! i)"
  have "map (Inr \<circ> fst) new1 ! i = map excel_path fs ! i" by (simp only: paths1)
  then have ex: "excel_path (fs ! i) = Inr p"
    using assms(4) len1 by (simp add: p_def)
  have "map (Inr \<circ> fst) (new1[i := (p, [])]) = (map (Inr \<circ> fst) new1 :: (exn + path) list)"
    by (rule map_update_same) (simp add: p_def)
  then have a: "map (Inr \<circ> fst) new2 = (map (Inr \<circ> fst) (new1[i := (p, [])]) :: (exn + path) list)"
    using paths1 paths2 by simp
  have b: "map snd new2 = map snd (new1[i := (p, [])])"
    unfolding arts2 upd by (simp add: map_update arts1)
  have new2: "new2 = new1[i := (p, [])]" by (rule pairs_eqI [OF a b])
  have "written w2 = (written w1)[length (written w) + i := (p, [])]"
    unfolding wr1 wr2 new2 by (simp add: list_update_append)
  moreover have "length (written w1) = length (written w) + length fs"
    by (simp add: wr1 len1)
  ultimately show ?thesis using run1 run2 ex by blast
qed

theorem C8_failure_of_one_file_isolated_witness:
  "written (snd (collect_data steady_client example_decoder
          [Path ''tables/a.png'', Path ''tables/b.pdf''] example_world)) =
     [(Path ''output/a.xlsx'', [120, 108, 115, 120]), (Path ''output/b.xlsx'', [120, 108, 115, 120])]
   \<and> written (snd (collect_data
          (fail_at steady_client [[(''ImageBase64'', JStr ''AQI='')]]
             [(''ImageBase64'', JStr ''JVBERg==''), (''IsPdf'', JBool True)] ''LimitExceeded'')
          example_decoder [Path ''tables/a.png'', Path ''tables/b.pdf''] example_world)) =
     [(Path ''output/a.xlsx'', [120, 108, 115, 120]), (Path ''output/b.xlsx'', [])]"
proof -
  let ?fs = "[Path ''tables/a.png'', Path ''tables/b.pdf'']"
  let ?c2 = "fail_at steady_client [[(''ImageBase64'', JStr ''AQI='')]]
             [(''ImageBase64'', JStr ''JVBERg==''), (''IsPdf'', JBool True)] ''LimitExceeded''"
  have i: "1 < length ?fs" by simp
  have o: "open_rb (cwd example_world) (?fs ! 1) = Inr [37, 80, 68, 70]"
    by (simp add: Path_b_pdf open_b_pdf)
  have ne: "[37, 80, 68, 70] \<noteq> ([] :: bytes)" by simp
  have le: "length (b64encode [37, 80, 68, 70]) \<le> MAX_SIZE"
    by (simp add: length_b64encode MAX_SIZE_def)
  have hB: "[[(''ImageBase64'', JStr ''AQI='')]] =
      calls (snd (collect_data steady_client example_decoder (take 1 ?fs) example_world))"
    by (simp add: steady_calls_before_b)
  have qB: "[(''ImageBase64'', JStr ''JVBERg==''), (''IsPdf'', JBool True)] =
      request_params (b64encode [37, 80, 68, 70]) (?fs ! 1) None"
    unfolding b64_b_pdf by (simp add: Path_b_pdf request_b_pdf)
  from C8_failure_of_one_file_isolated [where ?c1.0 = steady_client and ?c2.0 = ?c2
      and b64decode = example_decoder and m = "''LimitExceeded''",
      OF steady_provider_ok example_batch_ready example_discovered i o ne le hB qB refl]
  obtain w1 w2 p where
    run1: "collect_data steady_client example_decoder ?fs example_world = (Inr (), w1)"
    and run2: "collect_data ?c2 example_decoder ?fs example_world = (Inr (), w2)"
    and ex: "excel_path (?fs ! 1) = Inr p"
    and upd: "written w2 = (written w1)[length (written example_world) + 1 := (p, [])]"
    by blast
  have p: "p = \<lparr>p_root = [], p_parts = [''output'', ''b.xlsx'']\<rparr>"
    using ex by (simp add: Path_b_pdf excel_b_pdf)
  have w1: "written w1 =
     [(\<lparr>p_root = [], p_parts = [''output'', ''a.xlsx'']\<rparr>, [120, 108, 115, 120]),
      (\<lparr>p_root = [], p_parts = [''output'', ''b.xlsx'']\<rparr>, [120, 108, 115, 120])]"
    using steady_written unfolding run1 by simp
  have w2: "written w2 =
     [(\<lparr>p_root = [], p_parts = [''output'', ''a.xlsx'']\<rparr>, [120, 108, 115, 120]),
      (\<lparr>p_root = [], p_parts = [''output'', ''b.xlsx'']\<rparr>, [])]"
    unfolding upd w1 p by (simp add: example_world_def)
  have out: "Path ''output/a.xlsx'' = \<lparr>p_root = [], p_parts = [''output'', ''a.xlsx'']\<rparr>"
    "Path ''output/b.xlsx'' = \<lparr>p_root = [], p_parts = [''output'', ''b.xlsx'']\<rparr>"
    by (simp_all add: Path_def splitroot_def)
  show ?thesis unfolding run1 run2 out using w1 w2 by simp
qed

text \<open>
  Claim C9. Whatever the client, the decoder, the files and the state, every request that
  \<open>collect_data\<close> sends carries no \<^verbatim>\<open>PdfPageNumber\<close> field: the batch calls
  \<^verbatim>\<open>get_ocr_result\<close> without a page number (line 143), so no file of the batch, a PDF
  of several pages included, can ask for a page of its own.
\<close>

theorem C9_batch_never_sends_page_number:
  "\<exists>reqs. calls (snd (collect_data client b64decode files w)) = calls w @ reqs
      \<and> (\<forall>req\<in>set reqs. map_of req ''PdfPageNumber'' = None)"
proof (cases "mkdir_exist_ok (cwd w) OUTPUT")
  case (Inl e)
  then show ?thesis by (simp add: collect_data_def logging_def Let_def)
next
  case (Inr t)
  define w1 where "w1 = (logging ''collect_data'' INFO Msg_collecting w)\<lparr>cwd := t\<rparr>"
  have "collect_data client b64decode files w = collect_data_loop client b64decode files w1"
    using Inr by (simp add: collect_data_def Let_def w1_def logging_def)
  moreover have "calls w1 = calls w" by (simp add: w1_def logging_def)
  ultimately show ?thesis using collect_data_loop_calls [of client b64decode files w1] by simp
qed

theorem C9_batch_never_sends_page_number_witness:
  "calls (snd (collect_data example_client example_decoder [Path ''tables/b.pdf''] example_world))
     = [] @ [[(''ImageBase64'', JStr ''JVBERg==''), (''IsPdf'', JBool True)]]
   \<and> map_of [(''ImageBase64'', JStr ''JVBERg==''), (''IsPdf'', JBool True)] ''PdfPageNumber''
       = None"
  using C9_batch_never_sends_page_number
    [of example_client example_decoder "[Path ''tables/b.pdf'']" example_world]
  by (simp add: example_calls_b_pdf)

text \<open>
  Claim C10. For a file of zero bytes \<open>load_file\<close> returns the empty text and leaves the
  state as it is; \<open>get_ocr_result\<close> returns empty bytes with no request sent and nothing
  logged. In the batch, where the output file can be written, the loop writes an empty
  file for it, which reads back as empty, logs its two progress lines only, and goes on:
  the same output as for a file whose recognition failed.
\<close>

theorem C10_empty_input:
  assumes "open_rb (cwd w) f = Inr []"
  shows "load_file f w = (Inr [], w)
   \<and> get_ocr_result client b64decode f pdf_page w = (Inr [], w)
   \<and> (excel_path f = Inr excel \<longrightarrow> open_wb (cwd w) excel [] = Inr t \<longrightarrow>
        collect_data_loop client b64decode (f # fs) w =
        collect_data_loop client b64decode fs
          (w\<lparr>cwd := t,
              logged := logged w @
                [(''collect_data'', INFO, Msg_processing (path_stem f)),
                 (''collect_data'', INFO, Msg_written (path_stem f))],
              written := written w @ [(excel, [])]\<rparr>)
        \<and> open_rb t excel = Inr [])"
proof -
  have gen: "load_file f w' = (Inr [], w')" if "cwd w' = cwd w" for w'
    using load_file_accept [of w' f "[]"] assms that by simp
  show ?thesis
  proof (intro conjI impI)
    show l: "load_file f w = (Inr [], w)" by (rule gen) simp
    show "get_ocr_result client b64decode f pdf_page w = (Inr [], w)"
      by (rule get_ocr_result_no_payload [OF l])
  next
    assume e: "excel_path f = Inr excel" and o: "open_wb (cwd w) excel [] = Inr t"
    define w1 where "w1 = logging ''collect_data'' INFO (Msg_processing (path_stem f)) w"
    have "load_file f w1 = (Inr [], w1)" by (rule gen) (simp add: w1_def logging_fields)
    then have g: "get_ocr_result client b64decode f None w1 = (Inr [], w1)"
      by (rule get_ocr_result_no_payload)
    have o': "open_wb (cwd w1) excel [] = Inr t" using o by (simp add: w1_def logging_fields)
    show "collect_data_loop client b64decode (f # fs) w =
        collect_data_loop client b64decode fs
          (w\<lparr>cwd := t,
              logged := logged w @
                [(''collect_data'', INFO, Msg_processing (path_stem f)),
                 (''collect_data'', INFO, Msg_written (path_stem f))],
              written := written w @ [(excel, [])]\<rparr>)"
      unfolding collect_data_loop_step [OF g [unfolded w1_def] e o' [unfolded w1_def]]
      by (intro arg_cong [where f = "collect_data_loop client b64decode fs"] world.equality)
        (simp_all add: logging_def)
    show "open_rb t excel = Inr []" by (rule open_wb_then_open_rb [OF o])
  qed
qed

theorem C10_empty_input_witness:
  "load_file (Path ''tables/empty.jpg'') example_world = (Inr [], example_world)
   \<and> get_ocr_result example_client example_decoder (Path ''tables/empty.jpg'') None example_world
       = (Inr [], example_world)
   \<and> collect_data_loop example_client example_decoder [Path ''tables/empty.jpg''] example_world =
     (Inr (),
      \<lparr>cwd = example_tree_out [(''empty.xlsx'', File [])],
       logged =
          [(''collect_data'', INFO, Msg_processing ''empty''),
           (''collect_data'', INFO, Msg_written ''empty'')],
       calls = [],
       written = [(Path ''output/empty.xlsx'', [])]\<rparr>)
   \<and> open_rb (example_tree_out [(''empty.xlsx'', File [])]) (Path ''output/empty.xlsx'') = Inr []"
proof -
  have p: "Path ''tables/empty.jpg'' = \<lparr>p_root = [], p_parts = [''tables'', ''empty.jpg'']\<rparr>"
    by (simp add: Path_def splitroot_def)
  have out: "Path ''output/empty.xlsx'' = \<lparr>p_root = [], p_parts = [''output'', ''empty.xlsx'']\<rparr>"
    by (simp add: Path_def splitroot_def)
  have st: "path_stem \<lparr>p_root = [], p_parts = [''tables'', ''empty.jpg'']\<rparr> = ''empty''"
    by (simp add: path_stem_def path_name_def)
  note th = C10_empty_input [where client = example_client
        and excel = "\<lparr>p_root = [], p_parts = [''output'', ''empty.xlsx'']\<rparr>"
        and t = "example_tree_out [(''empty.xlsx'', File [])]" and fs = "[]"
        and b64decode = example_decoder and pdf_page = None,
      OF open_empty_jpg, unfolded st]
  show ?thesis
    unfolding p out
    using th excel_empty_jpg write_empty_xlsx [of "[]"]
    by (simp add: example_world_def)
qed

end
